theory Spec2Isabelle
  imports Complex_Main
begin

section \<open>PodSumAI: feed ingestion, audio provisioning and the summary workflow\<close>

text \<open>
  A shallow embedding of the main-process services of PodSumAI:
  \<^item> \<^verbatim>\<open>DatabaseManager\<close> (the prepared statements and \<^verbatim>\<open>transaction\<close>),
  \<^item> \<^verbatim>\<open>PodcastService.syncPodcast\<close>,
  \<^item> \<^verbatim>\<open>AudioService.provisionAudio\<close> and \<^verbatim>\<open>downloadToPersistent\<close>,
  \<^item> \<^verbatim>\<open>GeminiService\<close> (generation status and \<^verbatim>\<open>generateSummary\<close>, as one run and as
    invocations that overlap at their awaits),
  \<^item> the item handling of \<^verbatim>\<open>rss-parser.worker.ts\<close>.

  Mutable service state is passed explicitly. What the outside world answers (HTTP,
  the Gemini API, the clock, the id generator) is an argument of the function that asks.
  A thrown \<^verbatim>\<open>Error\<close> is the \<open>Inl\<close> branch of a sum.
\<close>

subsection \<open>Errors\<close>

text \<open>
  One constructor for each \<^verbatim>\<open>throw new Error(...)\<close> of the modelled code, named after the
  message, and \<open>External\<close> for an error raised by a collaborator (axios, the Gemini
  client, the file system, SQLite) and passed on unchanged.
\<close>

datatype error =
    ALREADY_GENERATING
  | EpisodeNotFound string
  | FileTooLarge nat
  | UploadNoFileName
  | ProcessingFailed
  | PollTimeout nat
  | DownloadedFileEmpty
  | DownloadedFileNotFound
  | SqliteConstraint string
  | External string

subsection \<open>JavaScript numbers\<close>

text \<open>
  A JavaScript number is \<^verbatim>\<open>NaN\<close>, an infinity or a finite value. Finite values are kept
  exact (a rational): rounding to IEEE doubles, overflow of huge literals and the sign
  of zero are not modelled.
\<close>

datatype jsnum = NaN | Fin rat | PosInf | NegInf

subsection \<open>DatabaseManager: tables\<close>

text \<open>
  The three tables of \<^verbatim>\<open>initSchema\<close>. \<^verbatim>\<open>podcasts\<close> has the primary key \<^verbatim>\<open>id\<close> and the
  unique column \<^verbatim>\<open>feed_url\<close>, and is read by both, so it is a list of rows.
  \<^verbatim>\<open>episodes\<close> is read by its primary key only: a map from \<^verbatim>\<open>id\<close> to the rest of the row.
  Nullable columns are options. \<^verbatim>\<open>duration\<close> holds the number that was bound: SQLite
  stores a bound \<^verbatim>\<open>NaN\<close> as \<^verbatim>\<open>NULL\<close>, and the row here keeps \<^verbatim>\<open>NaN\<close>.
\<close>

record podcast =
  pod_id :: string
  pod_title :: string
  pod_feed_url :: string
  pod_artwork_url :: "string option"
  pod_custom_prompt :: "string option"
  pod_last_fetched_at :: "string option"

record episode =
  ep_podcast_id :: string
  ep_title :: string
  ep_pub_date :: string
  ep_duration :: jsnum
  ep_audio_url :: string
  ep_is_downloaded :: bool
  ep_local_file_path :: "string option"

record document =
  doc_id :: string
  doc_episode_id :: string
  doc_content :: string
  doc_created_at :: string
  doc_used_prompt :: "string option"

record database =
  podcasts :: "podcast list"
  episodes :: "string \<rightharpoonup> episode"
  documents :: "document list"

subsection \<open>DatabaseManager: prepared statements\<close>

definition getPodcastByFeedUrl :: "database \<Rightarrow> string \<Rightarrow> podcast option" where
  "getPodcastByFeedUrl db url = find (\<lambda>p. pod_feed_url p = url) (podcasts db)"

definition getPodcastById :: "database \<Rightarrow> string \<Rightarrow> podcast option" where
  "getPodcastById db pid = find (\<lambda>p. pod_id p = pid) (podcasts db)"

definition getEpisodeById :: "database \<Rightarrow> string \<Rightarrow> episode option" where
  "getEpisodeById db eid = episodes db eid"

text \<open>
  \<^verbatim>\<open>INSERT INTO podcasts (id, title, feed_url, artwork_url, last_fetched_at, custom_prompt)
  VALUES (?, ?, ?, ?, ?, ?)
  ON CONFLICT(feed_url) DO UPDATE SET title = excluded.title,
    artwork_url = excluded.artwork_url, last_fetched_at = excluded.last_fetched_at\<close>

  A row with the same \<^verbatim>\<open>feed_url\<close> is updated in the three named columns. Otherwise the
  row is inserted, unless its \<^verbatim>\<open>id\<close> is taken: the primary key is not the conflict
  target, so that is a constraint error.
\<close>

definition upsertPodcast ::
  "string \<Rightarrow> string \<Rightarrow> string \<Rightarrow> string option \<Rightarrow> string \<Rightarrow> string option
    \<Rightarrow> database \<Rightarrow> error + database" where
  "upsertPodcast pid title feed_url artwork_url last_fetched_at custom_prompt db =
     (if getPodcastByFeedUrl db feed_url \<noteq> None then
        Inr (db\<lparr>podcasts :=
          map (\<lambda>p. if pod_feed_url p = feed_url
                    then p\<lparr>pod_title := title, pod_artwork_url := artwork_url,
                           pod_last_fetched_at := Some last_fetched_at\<rparr>
                    else p) (podcasts db)\<rparr>)
      else if getPodcastById db pid \<noteq> None then
        Inl (SqliteConstraint ''UNIQUE constraint failed: podcasts.id'')
      else
        Inr (db\<lparr>podcasts := podcasts db @
          [\<lparr>pod_id = pid, pod_title = title, pod_feed_url = feed_url,
            pod_artwork_url = artwork_url, pod_custom_prompt = custom_prompt,
            pod_last_fetched_at = Some last_fetched_at\<rparr>]\<rparr>))"

text \<open>
  \<^verbatim>\<open>INSERT INTO episodes (id, podcast_id, title, pub_date, duration, audio_url)
  VALUES (?, ?, ?, ?, ?, ?)
  ON CONFLICT(id) DO UPDATE SET title = excluded.title,
    duration = excluded.duration, audio_url = excluded.audio_url\<close>

  An inserted row takes the column defaults \<^verbatim>\<open>is_downloaded = 0\<close> and
  \<^verbatim>\<open>local_file_path = NULL\<close>, and its \<^verbatim>\<open>podcast_id\<close> must reference a podcast
  (\<^verbatim>\<open>PRAGMA foreign_keys = ON\<close>). The update changes no key column, so it checks none.
\<close>

definition upsertEpisode ::
  "string \<Rightarrow> string \<Rightarrow> string \<Rightarrow> string \<Rightarrow> jsnum \<Rightarrow> string
    \<Rightarrow> database \<Rightarrow> error + database" where
  "upsertEpisode eid podcast_id title pub_date duration audio_url db =
     (case episodes db eid of
        Some e \<Rightarrow>
          Inr (db\<lparr>episodes := (episodes db)(eid \<mapsto>
            e\<lparr>ep_title := title, ep_duration := duration, ep_audio_url := audio_url\<rparr>)\<rparr>)
      | None \<Rightarrow>
          if getPodcastById db podcast_id = None then
            Inl (SqliteConstraint ''FOREIGN KEY constraint failed'')
          else
            Inr (db\<lparr>episodes := (episodes db)(eid \<mapsto>
              \<lparr>ep_podcast_id = podcast_id, ep_title = title, ep_pub_date = pub_date,
               ep_duration = duration, ep_audio_url = audio_url,
               ep_is_downloaded = False, ep_local_file_path = None\<rparr>)\<rparr>))"

text \<open>\<^verbatim>\<open>UPDATE episodes SET is_downloaded = ?, local_file_path = ? WHERE id = ?\<close>\<close>

definition updateEpisodeDownloadStatus ::
  "bool \<Rightarrow> string option \<Rightarrow> string \<Rightarrow> database \<Rightarrow> database" where
  "updateEpisodeDownloadStatus flag path eid db =
     (case episodes db eid of
        None \<Rightarrow> db
      | Some e \<Rightarrow> db\<lparr>episodes := (episodes db)(eid \<mapsto>
          e\<lparr>ep_is_downloaded := flag, ep_local_file_path := path\<rparr>)\<rparr>)"

text \<open>\<^verbatim>\<open>DELETE FROM documents WHERE episode_id = ?\<close>\<close>

definition deleteDocumentsByEpisode :: "string \<Rightarrow> database \<Rightarrow> database" where
  "deleteDocumentsByEpisode eid db =
     db\<lparr>documents := filter (\<lambda>d. doc_episode_id d \<noteq> eid) (documents db)\<rparr>"

text \<open>
  \<^verbatim>\<open>INSERT INTO documents (id, episode_id, content, created_at, used_prompt)
  VALUES (?, ?, ?, ?, ?)\<close>, with the primary key and the foreign key checked.
\<close>

definition insertDocument ::
  "string \<Rightarrow> string \<Rightarrow> string \<Rightarrow> string \<Rightarrow> string option \<Rightarrow> database \<Rightarrow> error + database" where
  "insertDocument did eid content created_at used_prompt db =
     (if find (\<lambda>d. doc_id d = did) (documents db) \<noteq> None then
        Inl (SqliteConstraint ''UNIQUE constraint failed: documents.id'')
      else if episodes db eid = None then
        Inl (SqliteConstraint ''FOREIGN KEY constraint failed'')
      else
        Inr (db\<lparr>documents := documents db @
          [\<lparr>doc_id = did, doc_episode_id = eid, doc_content = content,
            doc_created_at = created_at, doc_used_prompt = used_prompt\<rparr>]\<rparr>))"

text \<open>
  \<^verbatim>\<open>transaction(fn)\<close>: the body runs on the database; when it throws, the writes it has
  made are rolled back and the error is thrown on; otherwise they are committed. A
  body returns its result, or its error, together with the database as it left it.
\<close>

definition transaction ::
  "(database \<Rightarrow> (error + 'r) \<times> database) \<Rightarrow> database \<Rightarrow> (error + 'r) \<times> database" where
  "transaction fn db =
     (case fn db of
        (Inl e, _) \<Rightarrow> (Inl e, db)
      | (Inr r, db') \<Rightarrow> (Inr r, db'))"

subsection \<open>PodcastService.syncPodcast\<close>

text \<open>The \<^verbatim>\<open>RSSFeed\<close> interface of the shared types.\<close>

record feed_podcast =
  fp_title :: string
  fp_feed_url :: string
  fp_artwork_url :: "string option"

record feed_episode =
  guid :: string
  title :: string
  pub_date :: string
  duration :: jsnum
  audio_url :: string

record RSSFeed =
  feed_podcast :: feed_podcast
  feed_episodes :: "feed_episode list"

text \<open>
  \<^verbatim>\<open>a || b\<close> on values of type \<^verbatim>\<open>string | null | undefined\<close>: the empty string is falsy,
  like \<^verbatim>\<open>null\<close> and \<^verbatim>\<open>undefined\<close>.
\<close>

definition present :: "string option \<Rightarrow> bool" where
  "present a \<longleftrightarrow> (case a of None \<Rightarrow> False | Some s \<Rightarrow> s \<noteq> [])"

definition js_or :: "string option \<Rightarrow> string option \<Rightarrow> string option" where
  "js_or a b = (if present a then a else b)"

text \<open>
  The \<^verbatim>\<open>forEach\<close> over the parsed episodes: the first statement that throws ends the
  loop, with the earlier rows written.
\<close>

fun upsertEpisodes ::
  "string \<Rightarrow> feed_episode list \<Rightarrow> database \<Rightarrow> (error + unit) \<times> database" where
  "upsertEpisodes podcastId [] db = (Inr (), db)"
| "upsertEpisodes podcastId (ep # eps) db =
     (case upsertEpisode (guid ep) podcastId (title ep) (pub_date ep) (duration ep)
             (audio_url ep) db of
        Inl e \<Rightarrow> (Inl e, db)
      | Inr db' \<Rightarrow> upsertEpisodes podcastId eps db')"

text \<open>
  The body of the transaction in \<^verbatim>\<open>syncPodcast\<close>. \<open>newId\<close> is what
  \<^verbatim>\<open>generateId()\<close> returns and \<open>now\<close> what \<^verbatim>\<open>now()\<close> returns.
\<close>

definition syncTransaction ::
  "RSSFeed \<Rightarrow> string \<Rightarrow> string \<Rightarrow> string \<Rightarrow> string option
    \<Rightarrow> database \<Rightarrow> (error + string \<times> nat) \<times> database" where
  "syncTransaction feed newId now url artworkUrl db =
     (let existing = getPodcastByFeedUrl db url;
          podcastId = (case existing of
                         None \<Rightarrow> newId
                       | Some p \<Rightarrow> if pod_id p \<noteq> [] then pod_id p else newId);
          finalArtworkUrl =
            js_or artworkUrl
              (js_or (case existing of None \<Rightarrow> None | Some p \<Rightarrow> pod_artwork_url p)
                 (js_or (fp_artwork_url (feed_podcast feed)) None))
      in case upsertPodcast podcastId (fp_title (feed_podcast feed)) url finalArtworkUrl now
                (js_or (case existing of None \<Rightarrow> None | Some p \<Rightarrow> pod_custom_prompt p) None)
                db of
           Inl e \<Rightarrow> (Inl e, db)
         | Inr db1 \<Rightarrow>
             (case upsertEpisodes podcastId (feed_episodes feed) db1 of
                (Inl e, db2) \<Rightarrow> (Inl e, db2)
              | (Inr _, db2) \<Rightarrow> (Inr (podcastId, length (feed_episodes feed)), db2)))"

text \<open>
  \<^verbatim>\<open>syncPodcast(url, artworkUrl)\<close>. \<open>parsed\<close> is what \<^verbatim>\<open>parseRSSInWorker(url)\<close> settles
  with: the worker's feed, or the error it is rejected with (a worker error or the
  30 second timeout).
\<close>

definition syncPodcast ::
  "error + RSSFeed \<Rightarrow> string \<Rightarrow> string \<Rightarrow> string \<Rightarrow> string option
    \<Rightarrow> database \<Rightarrow> (error + string \<times> nat) \<times> database" where
  "syncPodcast parsed newId now url artworkUrl db =
     (case parsed of
        Inl e \<Rightarrow> (Inl e, db)
      | Inr feed \<Rightarrow> transaction (syncTransaction feed newId now url artworkUrl) db)"

subsection \<open>GeminiService: generation status\<close>

text \<open>
  The two private fields \<^verbatim>\<open>isGenerating\<close> and \<^verbatim>\<open>generatingEpisodeId\<close>; the constructor
  initialises them to \<^verbatim>\<open>false\<close> and \<^verbatim>\<open>null\<close>.
\<close>

record gen_state =
  isGenerating :: bool
  generatingEpisodeId :: "string option"

definition initial_gen_state :: gen_state where
  "initial_gen_state = \<lparr>isGenerating = False, generatingEpisodeId = None\<rparr>"

definition getGeneratingStatus :: "gen_state \<Rightarrow> bool \<times> string option" where
  "getGeneratingStatus g = (isGenerating g, generatingEpisodeId g)"

definition isGeneratingEpisode :: "gen_state \<Rightarrow> string \<Rightarrow> bool" where
  "isGeneratingEpisode g episodeId \<longleftrightarrow>
     isGenerating g \<and> generatingEpisodeId g = Some episodeId"

definition startGeneration :: "string \<Rightarrow> gen_state \<Rightarrow> bool \<times> gen_state" where
  "startGeneration episodeId g =
     (if isGenerating g then (False, g)
      else (True, g\<lparr>isGenerating := True, generatingEpisodeId := Some episodeId\<rparr>))"

definition completeGeneration :: "gen_state \<Rightarrow> gen_state" where
  "completeGeneration g = g\<lparr>isGenerating := False, generatingEpisodeId := None\<rparr>"

text \<open>A call of one of the two mutators, and a run of such calls from a given state.\<close>

datatype gen_call = Start string | Complete

fun gen_step :: "gen_state \<Rightarrow> gen_call \<Rightarrow> gen_state" where
  "gen_step g (Start episodeId) = snd (startGeneration episodeId g)"
| "gen_step g Complete = completeGeneration g"

definition gen_run :: "gen_call list \<Rightarrow> gen_state" where
  "gen_run calls = foldl gen_step initial_gen_state calls"

text \<open>The status is consistent: an episode id is recorded exactly while generating.\<close>

definition gen_consistent :: "gen_state \<Rightarrow> bool" where
  "gen_consistent g \<longleftrightarrow> (isGenerating g \<longleftrightarrow> generatingEpisodeId g \<noteq> None)"

subsection \<open>The artwork priority of the specification\<close>

text \<open>
  The priority chain in the words of the specification: the first candidate that is
  present, and \<^verbatim>\<open>null\<close> when none is.
\<close>

definition first_present :: "string option list \<Rightarrow> string option" where
  "first_present xs = (case find present xs of None \<Rightarrow> None | Some a \<Rightarrow> a)"

subsection \<open>Sample data\<close>

text \<open>
  A library with one subscribed podcast and one episode of it that has been downloaded,
  and a later state of its feed: the episode retitled, and a second episode.
\<close>

definition sample_episode :: episode where
  "sample_episode =
     \<lparr>ep_podcast_id = ''p1'', ep_title = ''Pilot'', ep_pub_date = ''2024-01-01T00:00:00.000Z'',
      ep_duration = Fin 600, ep_audio_url = ''http://cdn/ep1.mp3'',
      ep_is_downloaded = True, ep_local_file_path = Some ''/home/u/Music/Podcasts/Show/Pilot.mp3''\<rparr>"

definition sample_db :: database where
  "sample_db =
     \<lparr>podcasts = [\<lparr>pod_id = ''p1'', pod_title = ''Show'', pod_feed_url = ''http://feed'',
                   pod_artwork_url = Some ''http://img/stored.png'', pod_custom_prompt = None,
                   pod_last_fetched_at = Some ''2024-01-02T00:00:00.000Z''\<rparr>],
      episodes = [''ep1'' \<mapsto> sample_episode],
      documents = []\<rparr>"

definition sample_feed :: RSSFeed where
  "sample_feed =
     \<lparr>feed_podcast = \<lparr>fp_title = ''Show (new)'', fp_feed_url = ''http://feed'',
                       fp_artwork_url = Some ''http://img/feed.png''\<rparr>,
      feed_episodes =
        [\<lparr>guid = ''ep1'', title = ''Pilot (remastered)'', pub_date = ''2024-01-01T00:00:00.000Z'',
          duration = Fin 601, audio_url = ''http://cdn/ep1-v2.mp3''\<rparr>,
         \<lparr>guid = ''ep2'', title = ''Second'', pub_date = ''2024-02-01T00:00:00.000Z'',
          duration = Fin 1200, audio_url = ''http://cdn/ep2.mp3''\<rparr>]\<rparr>"

text \<open>
  The same library with the podcast stored under the empty id. \<^verbatim>\<open>existing?.id || generateId()\<close>
  then takes a fresh id, which no podcast row carries after the upsert by feed URL.
\<close>

definition sample_db_empty_id :: database where
  "sample_db_empty_id =
     \<lparr>podcasts = [\<lparr>pod_id = [], pod_title = ''Show'', pod_feed_url = ''http://feed'',
                   pod_artwork_url = None, pod_custom_prompt = None,
                   pod_last_fetched_at = None\<rparr>],
      episodes = [''ep1'' \<mapsto> sample_episode\<lparr>ep_podcast_id := []\<rparr>],
      documents = []\<rparr>"

subsection \<open>Strings and paths\<close>

text \<open>
  \<^verbatim>\<open>s.split(c)\<close> for a one-character separator: the pieces between the separators, empty
  pieces kept; the empty string gives one empty piece.
\<close>

fun split_on :: "char \<Rightarrow> string \<Rightarrow> string list" where
  "split_on c [] = [[]]"
| "split_on c (x # xs) =
     (if x = c then [] # split_on c xs
      else (case split_on c xs of [] \<Rightarrow> [[x]] | y # ys \<Rightarrow> (x # y) # ys))"

text \<open>\<^verbatim>\<open>pieces.join(sep)\<close>.\<close>

fun join_with :: "string \<Rightarrow> string list \<Rightarrow> string" where
  "join_with sep [] = []"
| "join_with sep [x] = x"
| "join_with sep (x # y # ys) = x @ sep @ join_with sep (y # ys)"

text \<open>
  \<^verbatim>\<open>path.join\<close> and \<^verbatim>\<open>path.normalize\<close> of Node.js in their POSIX form (the Windows form,
  with its drive letters and second separator, is not modelled). \<open>normalize_step\<close>
  is one round of Node's \<^verbatim>\<open>normalizeString\<close>: the segments kept so far, last one first,
  and the next segment.
\<close>

definition normalize_step :: "bool \<Rightarrow> string list \<Rightarrow> string \<Rightarrow> string list" where
  "normalize_step allowAboveRoot res seg =
     (if seg = [] \<or> seg = ''.'' then res
      else if seg = ''..'' then
        (case res of
           [] \<Rightarrow> if allowAboveRoot then [''..''] else []
         | lastSegment # rest \<Rightarrow>
             if lastSegment = ''..'' then (if allowAboveRoot then ''..'' # res else res) else rest)
      else seg # res)"

definition path_normalize :: "string \<Rightarrow> string" where
  "path_normalize p =
     (if p = [] then ''.''
      else
        let isAbsolute = (hd p = CHR ''/'');
            trailingSeparator = (last p = CHR ''/'');
            q = join_with ''/''
                  (rev (foldl (normalize_step (\<not> isAbsolute)) [] (split_on CHR ''/'' p)))
        in if q = [] then (if isAbsolute then ''/'' else if trailingSeparator then ''./'' else ''.'')
           else (if isAbsolute then ''/'' else []) @ q @ (if trailingSeparator then ''/'' else []))"

definition path_join :: "string list \<Rightarrow> string" where
  "path_join args =
     (let joined = join_with ''/'' (filter (\<lambda>a. a \<noteq> []) args)
      in if joined = [] then ''.'' else path_normalize joined)"

subsection \<open>The world outside the services\<close>

text \<open>
  The file system maps the path of each existing file to its size in bytes
  (directories are not tracked). \<open>remote\<close> holds the names of the files stored with the
  Gemini Files API. \<open>trace\<close> records, in order, each request sent out, each file
  removal attempted and each \<^verbatim>\<open>console.error\<close> line.
\<close>

datatype action =
    HttpGet string string
  | UploadFile string
  | GetFile string
  | GenerateContent string string
  | DeleteRemoteFile string
  | UnlinkFile string
  | ConsoleError string

record world =
  gen :: gen_state
  store :: database
  fs :: "string \<rightharpoonup> nat"
  remote :: "string set"
  trace :: "action list"

definition existsSync :: "world \<Rightarrow> string \<Rightarrow> bool" where
  "existsSync w p \<longleftrightarrow> fs w p \<noteq> None"

definition statSync :: "world \<Rightarrow> string \<Rightarrow> error + nat" where
  "statSync w p = (case fs w p of None \<Rightarrow> Inl (External ''ENOENT'') | Some bytes \<Rightarrow> Inr bytes)"

text \<open>
  What the outside answers. A download ends in one of three ways: the request is
  rejected before a file is opened; the response stream or the writer fails after
  some bytes, and removing the partial file works or does not; or everything is
  written and flushed.
\<close>

datatype download_outcome =
    RequestFailed error
  | StreamFailed error nat bool
  | Finished nat

datatype file_state = STATE_UNSPECIFIED | PROCESSING | ACTIVE | FAILED

record environment =
  tmpdir :: string
  homedir :: string
  http_get :: "string \<Rightarrow> download_outcome"
  upload_file :: "string \<Rightarrow> error + string \<times> string"
  get_file :: "string \<Rightarrow> nat \<Rightarrow> error + file_state"
  sleep_lag :: "nat \<Rightarrow> nat"
  generate_content :: "string \<Rightarrow> string \<Rightarrow> error + string"
  delete_file :: "string \<Rightarrow> error option"
  unlink :: "string \<Rightarrow> error option"
  generateId :: string
  nowISO :: string
  default_prompt :: string

subsection \<open>AudioService\<close>

record AudioProvisionResult =
  path :: string
  isEphemeral :: bool

definition tempDir :: "environment \<Rightarrow> string" where
  "tempDir env = path_join [tmpdir env, ''myapp-cache'']"

text \<open>
  \<^verbatim>\<open>downloadStream(url, destPath)\<close>. The write stream creates the destination file. On
  \<^verbatim>\<open>finish\<close> the file must exist and be non-empty. On an error of either stream the
  partial file is removed, a failure of that removal being ignored.
\<close>

definition downloadStream ::
  "environment \<Rightarrow> string \<Rightarrow> string \<Rightarrow> world \<Rightarrow> (error + unit) \<times> world" where
  "downloadStream env url destPath w =
     (let w0 = w\<lparr>trace := trace w @ [HttpGet url destPath]\<rparr>
      in case http_get env url of
           RequestFailed e \<Rightarrow> (Inl e, w0)
         | StreamFailed e written removed \<Rightarrow>
             (Inl e, w0\<lparr>fs := (if removed then (fs w0)(destPath := None)
                               else (fs w0)(destPath \<mapsto> written))\<rparr>)
         | Finished written \<Rightarrow>
             (let w1 = w0\<lparr>fs := (fs w0)(destPath \<mapsto> written)\<rparr>
              in if existsSync w1 destPath then
                   (case statSync w1 destPath of
                      Inl e \<Rightarrow> (Inl e, w1)
                    | Inr bytes \<Rightarrow> if bytes > 0 then (Inr (), w1)
                                  else (Inl DownloadedFileEmpty, w1))
                 else (Inl DownloadedFileNotFound, w1)))"

text \<open>The tail of \<^verbatim>\<open>provisionAudio\<close>: download to the temporary cache.\<close>

definition downloadToTemp ::
  "environment \<Rightarrow> string \<Rightarrow> episode \<Rightarrow> world \<Rightarrow> (error + AudioProvisionResult) \<times> world" where
  "downloadToTemp env episodeId episode w =
     (let tempPath = path_join [tempDir env, episodeId @ ''.mp3'']
      in case downloadStream env (ep_audio_url episode) tempPath w of
           (Inl e, w') \<Rightarrow> (Inl e, w')
         | (Inr _, w') \<Rightarrow> (Inr \<lparr>path = tempPath, isEphemeral = True\<rparr>, w'))"

definition provisionAudio ::
  "environment \<Rightarrow> string \<Rightarrow> world \<Rightarrow> (error + AudioProvisionResult) \<times> world" where
  "provisionAudio env episodeId w =
     (case getEpisodeById (store w) episodeId of
        None \<Rightarrow> (Inl (EpisodeNotFound episodeId), w)
      | Some episode \<Rightarrow>
          (case (if ep_is_downloaded episode \<and> present (ep_local_file_path episode)
                 then ep_local_file_path episode else None) of
             Some local_file_path \<Rightarrow>
               if existsSync w local_file_path then
                 (Inr \<lparr>path = local_file_path, isEphemeral = False\<rparr>, w)
               else
                 downloadToTemp env episodeId episode
                   (w\<lparr>store := updateEpisodeDownloadStatus False None episodeId (store w)\<rparr>)
           | None \<Rightarrow> downloadToTemp env episodeId episode w))"

text \<open>
  The sanitizer of \<^verbatim>\<open>downloadToPersistent\<close>: \<^verbatim>\<open>replace(/[^a-zA-Z0-9\s\-_]/g, "_")\<close>. A
  character is a code unit below 256; of the characters that \<^verbatim>\<open>\s\<close> matches, these are
  tab, line feed, vertical tab, form feed, carriage return, space and no-break space.
\<close>

definition js_whitespace :: "char \<Rightarrow> bool" where
  "js_whitespace c \<longleftrightarrow> (of_char c :: nat) \<in> {9, 10, 11, 12, 13, 32, 160}"

definition ascii_alnum :: "char \<Rightarrow> bool" where
  "ascii_alnum c \<longleftrightarrow>
     (let n = (of_char c :: nat)
      in (97 \<le> n \<and> n \<le> 122) \<or> (65 \<le> n \<and> n \<le> 90) \<or> (48 \<le> n \<and> n \<le> 57))"

definition kept_char :: "char \<Rightarrow> bool" where
  "kept_char c \<longleftrightarrow> ascii_alnum c \<or> js_whitespace c \<or> c = CHR ''-'' \<or> c = CHR ''_''"

definition sanitize :: "string \<Rightarrow> string" where
  "sanitize s = map (\<lambda>c. if kept_char c then c else CHR ''_'') s"

definition mediaRoot :: "environment \<Rightarrow> string" where
  "mediaRoot env = path_join [homedir env, ''Music'', ''Podcasts'']"

definition persistentPath :: "environment \<Rightarrow> string \<Rightarrow> string \<Rightarrow> string" where
  "persistentPath env podcastTitle episodeTitle =
     (let sanitizedPodcast = sanitize podcastTitle;
          sanitizedTitle = sanitize episodeTitle;
          fileName = sanitizedTitle @ ''.mp3'';
          destDir = path_join [homedir env, ''Music'', ''Podcasts'', sanitizedPodcast]
      in path_join [destDir, fileName])"

definition downloadToPersistent ::
  "environment \<Rightarrow> string \<Rightarrow> string \<Rightarrow> world \<Rightarrow> (error + string) \<times> world" where
  "downloadToPersistent env episodeId podcastTitle w =
     (case getEpisodeById (store w) episodeId of
        None \<Rightarrow> (Inl (EpisodeNotFound episodeId), w)
      | Some episode \<Rightarrow>
          (let destPath = persistentPath env podcastTitle (ep_title episode)
           in case downloadStream env (ep_audio_url episode) destPath w of
                (Inl e, w') \<Rightarrow> (Inl e, w')
              | (Inr _, w') \<Rightarrow>
                  (Inr destPath,
                   w'\<lparr>store := updateEpisodeDownloadStatus True (Some destPath) episodeId (store w')\<rparr>)))"

text \<open>
  The allow-list in the words of the specification (alphanumeric, space, hyphen,
  underscore), and stripping as the removal of every other character.
\<close>

definition spec_allowed :: "char \<Rightarrow> bool" where
  "spec_allowed c \<longleftrightarrow> ascii_alnum c \<or> c = CHR '' '' \<or> c = CHR ''-'' \<or> c = CHR ''_''"

definition spec_strip :: "string \<Rightarrow> string" where
  "spec_strip s = filter spec_allowed s"

subsection \<open>GeminiService.generateSummary\<close>

text \<open>
  Statements that may throw take the world and return their result, or their error, with
  the world as they left it. \<open>seq\<close> is statement sequencing, \<open>try_catch\<close> is
  \<^verbatim>\<open>try { ... } catch (err) { ... }\<close>.
\<close>

definition skip :: "world \<Rightarrow> (error + unit) \<times> world" where
  "skip w = (Inr (), w)"

definition seq ::
  "(world \<Rightarrow> (error + unit) \<times> world) \<Rightarrow> (world \<Rightarrow> (error + 'a) \<times> world)
    \<Rightarrow> world \<Rightarrow> (error + 'a) \<times> world" where
  "seq first rest w = (case first w of (Inl e, w') \<Rightarrow> (Inl e, w') | (Inr _, w') \<Rightarrow> rest w')"

definition try_catch ::
  "(world \<Rightarrow> (error + 'a) \<times> world) \<Rightarrow> (error \<Rightarrow> world \<Rightarrow> (error + 'a) \<times> world)
    \<Rightarrow> world \<Rightarrow> (error + 'a) \<times> world" where
  "try_catch body handler w =
     (case body w of (Inl e, w') \<Rightarrow> handler e w' | (Inr r, w') \<Rightarrow> (Inr r, w'))"

definition consoleError :: "string \<Rightarrow> world \<Rightarrow> (error + unit) \<times> world" where
  "consoleError msg w = (Inr (), w\<lparr>trace := trace w @ [ConsoleError msg]\<rparr>)"

text \<open>The calls to the Gemini client and to the file system.\<close>

definition uploadFile ::
  "environment \<Rightarrow> string \<Rightarrow> world \<Rightarrow> (error + string \<times> string) \<times> world" where
  "uploadFile env localPath w =
     (let w0 = w\<lparr>trace := trace w @ [UploadFile localPath]\<rparr>
      in case upload_file env localPath of
           Inl e \<Rightarrow> (Inl e, w0)
         | Inr (uri, name) \<Rightarrow> (Inr (uri, name), w0\<lparr>remote := insert name (remote w0)\<rparr>))"

definition generateContent ::
  "environment \<Rightarrow> string \<Rightarrow> string \<Rightarrow> world \<Rightarrow> (error + string) \<times> world" where
  "generateContent env prompt fileUri w =
     (generate_content env prompt fileUri,
      w\<lparr>trace := trace w @ [GenerateContent prompt fileUri]\<rparr>)"

definition deleteFile :: "environment \<Rightarrow> string \<Rightarrow> world \<Rightarrow> (error + unit) \<times> world" where
  "deleteFile env name w =
     (let w0 = w\<lparr>trace := trace w @ [DeleteRemoteFile name]\<rparr>
      in case delete_file env name of
           Some e \<Rightarrow> (Inl e, w0)
         | None \<Rightarrow> (Inr (), w0\<lparr>remote := remote w0 - {name}\<rparr>))"

definition unlinkSync :: "environment \<Rightarrow> string \<Rightarrow> world \<Rightarrow> (error + unit) \<times> world" where
  "unlinkSync env p w =
     (let w0 = w\<lparr>trace := trace w @ [UnlinkFile p]\<rparr>
      in if \<not> existsSync w0 p then (Inl (External ''ENOENT''), w0)
         else case unlink env p of
                Some e \<Rightarrow> (Inl e, w0)
              | None \<Rightarrow> (Inr (), w0\<lparr>fs := (fs w0)(p := None)\<rparr>))"

text \<open>
  \<^verbatim>\<open>pollUntilActive(fileName, maxWaitMs)\<close>. \<open>i\<close> counts the polls made and \<open>elapsed\<close> is
  the time since the start in milliseconds. The clock is taken not to run backwards:
  a wait lasts the poll interval of 2000 ms and a lag that the environment chooses.
\<close>

function pollLoop ::
  "environment \<Rightarrow> string \<Rightarrow> nat \<Rightarrow> nat \<Rightarrow> nat \<Rightarrow> world \<Rightarrow> (error + unit) \<times> world" where
  "pollLoop env fileName maxWaitMs i elapsed w =
     (if elapsed < maxWaitMs then
        (if get_file env fileName i = Inr ACTIVE then
           (Inr (), w\<lparr>trace := trace w @ [GetFile fileName]\<rparr>)
         else if get_file env fileName i = Inr FAILED then
           (Inl ProcessingFailed, w\<lparr>trace := trace w @ [GetFile fileName]\<rparr>)
         else if isl (get_file env fileName i) then
           (Inl (projl (get_file env fileName i)), w\<lparr>trace := trace w @ [GetFile fileName]\<rparr>)
         else
           pollLoop env fileName maxWaitMs (Suc i) (elapsed + 2000 + sleep_lag env i)
             (w\<lparr>trace := trace w @ [GetFile fileName]\<rparr>))
      else (Inl (PollTimeout maxWaitMs), w))"
  by pat_completeness auto
termination
  by (relation "measure (\<lambda>(env, fileName, maxWaitMs, i, elapsed, w). maxWaitMs - elapsed)") auto

declare pollLoop.simps [simp del]

definition pollUntilActive ::
  "environment \<Rightarrow> string \<Rightarrow> nat \<Rightarrow> world \<Rightarrow> (error + unit) \<times> world" where
  "pollUntilActive env fileName maxWaitMs w = pollLoop env fileName maxWaitMs 0 0 w"

text \<open>\<^verbatim>\<open>getPrompt(episodeId)\<close>: the podcast's custom prompt if it has one, else the default.\<close>

definition getPrompt :: "environment \<Rightarrow> database \<Rightarrow> string \<Rightarrow> error + string" where
  "getPrompt env d episodeId =
     (case getEpisodeById d episodeId of
        None \<Rightarrow> Inl (EpisodeNotFound episodeId)
      | Some episode \<Rightarrow>
          (case (case getPodcastById d (ep_podcast_id episode) of
                   None \<Rightarrow> None
                 | Some podcast \<Rightarrow> pod_custom_prompt podcast) of
             None \<Rightarrow> Inr (default_prompt env)
           | Some custom_prompt \<Rightarrow>
               if custom_prompt \<noteq> [] then Inr custom_prompt else Inr (default_prompt env)))"

text \<open>Step 6: the old summaries of the episode are deleted and the new one inserted.\<close>

definition saveSummary ::
  "environment \<Rightarrow> string \<Rightarrow> string \<Rightarrow> string \<Rightarrow> database \<Rightarrow> (error + unit) \<times> database" where
  "saveSummary env episodeId markdown prompt d =
     (let d1 = deleteDocumentsByEpisode episodeId d
      in case insertDocument (generateId env) episodeId markdown (nowISO env) (Some prompt) d1 of
           Inl e \<Rightarrow> (Inl e, d1)
         | Inr d2 \<Rightarrow> (Inr (), d2))"

text \<open>The three local variables of \<^verbatim>\<open>generateSummary\<close> that the \<^verbatim>\<open>finally\<close> block reads.\<close>

record summary_locals =
  geminiFileUri :: "string option"
  geminiFileName :: "string option"
  localAudio :: "AudioProvisionResult option"

text \<open>
  The \<^verbatim>\<open>try\<close> block, in three parts read from its end: steps 3 to 6 (poll, prompt,
  generation, persistence), the size check with step 2 (upload), and step 1
  (provisioning). Each gives the result or the error thrown, the local variables as
  they stand at that point, and the world. The size test
  \<^verbatim>\<open>stats.size / (1024 * 1024) > 2000\<close> is the same as \<^verbatim>\<open>stats.size > 2000 * 1024 * 1024\<close>.
\<close>

definition summarize ::
  "environment \<Rightarrow> string \<Rightarrow> string \<Rightarrow> string \<Rightarrow> summary_locals \<Rightarrow> world
    \<Rightarrow> (error + string) \<times> summary_locals \<times> world" where
  "summarize env episodeId uri name l w =
     (case pollUntilActive env name 60000 w of
        (Inl e, w3) \<Rightarrow> (Inl e, l, w3)
      | (Inr _, w3) \<Rightarrow>
          (case getPrompt env (store w3) episodeId of
             Inl e \<Rightarrow> (Inl e, l, w3)
           | Inr prompt \<Rightarrow>
               (case generateContent env prompt uri w3 of
                  (Inl e, w4) \<Rightarrow> (Inl e, l, w4)
                | (Inr markdown, w4) \<Rightarrow>
                    (case transaction (saveSummary env episodeId markdown prompt) (store w4) of
                       (Inl e, d) \<Rightarrow> (Inl e, l, w4\<lparr>store := d\<rparr>)
                     | (Inr _, d) \<Rightarrow> (Inr markdown, l, w4\<lparr>store := d\<rparr>)))))"

definition uploadAndSummarize ::
  "environment \<Rightarrow> string \<Rightarrow> AudioProvisionResult \<Rightarrow> summary_locals \<Rightarrow> world
    \<Rightarrow> (error + string) \<times> summary_locals \<times> world" where
  "uploadAndSummarize env episodeId audio l w =
     (case statSync w (path audio) of
        Inl e \<Rightarrow> (Inl e, l, w)
      | Inr bytes \<Rightarrow>
          if bytes > 2000 * (1024 * 1024) then (Inl (FileTooLarge bytes), l, w)
          else
            (case uploadFile env (path audio) w of
               (Inl e, w2) \<Rightarrow> (Inl e, l, w2)
             | (Inr (uri, name), w2) \<Rightarrow>
                 if name = [] then
                   (Inl UploadNoFileName,
                    l\<lparr>geminiFileUri := Some uri, geminiFileName := Some name\<rparr>, w2)
                 else
                   summarize env episodeId uri name
                     (l\<lparr>geminiFileUri := Some uri, geminiFileName := Some name\<rparr>) w2))"

definition summaryTry ::
  "environment \<Rightarrow> string \<Rightarrow> world \<Rightarrow> (error + string) \<times> summary_locals \<times> world" where
  "summaryTry env episodeId w =
     (case provisionAudio env episodeId w of
        (Inl e, w1) \<Rightarrow>
          (Inl e, \<lparr>geminiFileUri = None, geminiFileName = None, localAudio = None\<rparr>, w1)
      | (Inr audio, w1) \<Rightarrow>
          uploadAndSummarize env episodeId audio
            \<lparr>geminiFileUri = None, geminiFileName = None, localAudio = Some audio\<rparr> w1)"

text \<open>The \<^verbatim>\<open>finally\<close> block.\<close>

definition summaryFinally ::
  "environment \<Rightarrow> summary_locals \<Rightarrow> world \<Rightarrow> (error + unit) \<times> world" where
  "summaryFinally env l =
     seq (\<lambda>w. (Inr (), w\<lparr>gen := completeGeneration (gen w)\<rparr>))
    (seq (if present (geminiFileName l) then
            try_catch (deleteFile env (case geminiFileName l of None \<Rightarrow> [] | Some name \<Rightarrow> name))
              (\<lambda>err. consoleError ''Failed to delete Gemini file:'')
          else skip)
         (\<lambda>w. case localAudio l of
                None \<Rightarrow> skip w
              | Some audio \<Rightarrow>
                  if isEphemeral audio \<and> existsSync w (path audio) then
                    try_catch (unlinkSync env (path audio))
                      (\<lambda>err. consoleError ''Failed to delete temp file:'') w
                  else skip w))"

text \<open>
  \<^verbatim>\<open>try { ... } finally { ... }\<close>: the \<^verbatim>\<open>finally\<close> block runs on what the \<^verbatim>\<open>try\<close> block left.
  When it completes normally, the completion of the \<^verbatim>\<open>try\<close> block stands; when it
  throws, its error replaces that completion.
\<close>

definition try_finally ::
  "(error + 'a) \<times> 'l \<times> world \<Rightarrow> ('l \<Rightarrow> world \<Rightarrow> (error + unit) \<times> world)
    \<Rightarrow> (error + 'a) \<times> world" where
  "try_finally completion fin =
     (case completion of
        (r, l, w) \<Rightarrow> (case fin l w of (Inl e, w') \<Rightarrow> (Inl e, w') | (Inr _, w') \<Rightarrow> (r, w')))"

definition generateSummary ::
  "environment \<Rightarrow> string \<Rightarrow> world \<Rightarrow> (error + string) \<times> world" where
  "generateSummary env episodeId w =
     (case startGeneration episodeId (gen w) of
        (started, g) \<Rightarrow>
          if \<not> started then (Inl ALREADY_GENERATING, w)
          else try_finally (summaryTry env episodeId (w\<lparr>gen := g\<rparr>)) (summaryFinally env))"

text \<open>
  A machine on which every request succeeds except content generation: the download
  writes 5 bytes, the upload is stored as \<^verbatim>\<open>files/abc\<close>, the file is active at the second
  poll, and the model answers with an error. \<open>sample_env_stuck\<close> is the same machine
  on which neither the remote file nor the local file can be removed.
\<close>

definition sample_env :: environment where
  "sample_env =
     \<lparr>tmpdir = ''/tmp'', homedir = ''/home/u'',
      http_get = (\<lambda>url. Finished 5),
      upload_file = (\<lambda>p. Inr (''https://files/abc'', ''files/abc'')),
      get_file = (\<lambda>name i. if i = 0 then Inr PROCESSING else Inr ACTIVE),
      sleep_lag = (\<lambda>i. 3),
      generate_content = (\<lambda>prompt uri. Inl (External ''503 Service Unavailable'')),
      delete_file = (\<lambda>name. None),
      unlink = (\<lambda>p. None),
      generateId = ''d1'',
      nowISO = ''2024-03-01T00:00:00.000Z'',
      default_prompt = ''Summarize the episode.''\<rparr>"

definition sample_env_stuck :: environment where
  "sample_env_stuck =
     sample_env\<lparr>delete_file := (\<lambda>name. Some (External ''403 Forbidden'')),
                unlink := (\<lambda>p. Some (External ''EPERM''))\<rparr>"

text \<open>
  Three worlds over the sample library, all idle: the downloaded file of \<^verbatim>\<open>ep1\<close> is on
  disk; it is not; and \<^verbatim>\<open>ep1\<close> was never downloaded.
\<close>

definition sample_world :: world where
  "sample_world =
     \<lparr>gen = initial_gen_state, store = sample_db,
      fs = [''/home/u/Music/Podcasts/Show/Pilot.mp3'' \<mapsto> 1000],
      remote = {}, trace = []\<rparr>"


definition sample_world_streaming :: world where
  "sample_world_streaming =
     sample_world
       \<lparr>store := sample_db\<lparr>episodes := [''ep1'' \<mapsto>
           sample_episode\<lparr>ep_is_downloaded := False, ep_local_file_path := None\<rparr>]\<rparr>,
        fs := Map.empty\<rparr>"

subsection \<open>Invocations of generateSummary that overlap\<close>

text \<open>
  \<^verbatim>\<open>generateSummary\<close> is an \<^verbatim>\<open>async\<close> function. An invocation runs alone on the one
  JavaScript thread until it reaches an \<^verbatim>\<open>await\<close>; while it waits, other invocations
  run; then it is resumed. So an invocation is at one of these points: about to be
  called; waiting at one of the four awaits of the \<^verbatim>\<open>try\<close> block (provisioning, upload,
  polling, content generation) or at the await of the \<^verbatim>\<open>finally\<close> block (the remote
  deletion); or settled with its result. It carries the local variables it still
  needs, and in the \<^verbatim>\<open>finally\<close> block the completion of the \<^verbatim>\<open>try\<close> block.

  \<open>resume\<close> runs an invocation from such a point to its next one. An awaited call takes
  effect at some moment between the call and the resumption; here it takes effect
  when the invocation is resumed, as one step also where it awaits inside (the
  download, the polling loop). The statements are those of \<open>summaryTry\<close> and
  \<open>summaryFinally\<close>, cut at the awaits.
\<close>

datatype invocation =
    Called
  | AwaitProvision
  | AwaitUpload summary_locals AudioProvisionResult
  | AwaitPoll summary_locals string string
  | AwaitGenerate summary_locals string string
  | AwaitDelete "error + string" summary_locals
  | Settled "error + string"

text \<open>The second cleanup of the \<^verbatim>\<open>finally\<close> block: it has no await.\<close>

definition cleanupLocal :: "environment \<Rightarrow> summary_locals \<Rightarrow> world \<Rightarrow> (error + unit) \<times> world" where
  "cleanupLocal env l w =
     (case localAudio l of
        None \<Rightarrow> skip w
      | Some audio \<Rightarrow>
          if isEphemeral audio \<and> existsSync w (path audio) then
            try_catch (unlinkSync env (path audio))
              (\<lambda>err. consoleError ''Failed to delete temp file:'') w
          else skip w)"

text \<open>
  The end of the \<^verbatim>\<open>finally\<close> block: the promise settles with the completion of the
  \<^verbatim>\<open>try\<close> block, or with the error of the \<^verbatim>\<open>finally\<close> block if it threw.
\<close>

definition settle :: "error + string \<Rightarrow> (error + unit) \<times> world \<Rightarrow> invocation \<times> world" where
  "settle completion fin =
     (case fin of
        (Inl e, w) \<Rightarrow> (Settled (Inl e), w)
      | (Inr _, w) \<Rightarrow> (Settled completion, w))"

text \<open>
  Leaving the \<^verbatim>\<open>try\<close> block, by \<^verbatim>\<open>return\<close> or by a throw, enters the \<^verbatim>\<open>finally\<close> block: the
  status is reset first, and when a file name is recorded the invocation waits for the
  remote deletion.
\<close>

definition leaveTry ::
  "environment \<Rightarrow> error + string \<Rightarrow> summary_locals \<Rightarrow> world \<Rightarrow> invocation \<times> world" where
  "leaveTry env completion l w =
     (let w0 = w\<lparr>gen := completeGeneration (gen w)\<rparr>
      in if present (geminiFileName l) then (AwaitDelete completion l, w0)
         else settle completion (cleanupLocal env l w0))"

definition afterDelete ::
  "environment \<Rightarrow> error + string \<Rightarrow> summary_locals \<Rightarrow> world \<Rightarrow> invocation \<times> world" where
  "afterDelete env completion l w =
     (case try_catch (deleteFile env (case geminiFileName l of None \<Rightarrow> [] | Some name \<Rightarrow> name))
             (\<lambda>err. consoleError ''Failed to delete Gemini file:'') w of
        (Inl e, w') \<Rightarrow> (Settled (Inl e), w')
      | (Inr _, w') \<Rightarrow> settle completion (cleanupLocal env l w'))"





text \<open>
  An invocation is inside its \<^verbatim>\<open>try\<close> block when it waits at one of the four awaits of
  the block. The process is single-flight when at most one invocation is inside its
  \<^verbatim>\<open>try\<close> block and the status says so: \<^verbatim>\<open>Generating\<close> with the episode of that
  invocation, or idle when there is none.
\<close>

fun in_try :: "invocation \<Rightarrow> bool" where
  "in_try AwaitProvision = True"
| "in_try (AwaitUpload l audio) = True"
| "in_try (AwaitPoll l uri name) = True"
| "in_try (AwaitGenerate l prompt uri) = True"
| "in_try point = False"



subsection \<open>rss-parser.worker.ts: values of the parsed XML\<close>

text \<open>
  What \<^verbatim>\<open>fast-xml-parser\<close> hands over for a tag: nothing, text, a number (kept here when
  it is an integer), an object of attributes and child tags, or an array for a repeated
  tag.
\<close>

datatype jsval =
    Undefined
  | Str string
  | Num int
  | Obj "(string \<times> jsval) list"
  | Arr "jsval list"

fun truthy :: "jsval \<Rightarrow> bool" where
  "truthy Undefined = False"
| "truthy (Str s) = (s \<noteq> [])"
| "truthy (Num n) = (n \<noteq> 0)"
| "truthy (Obj kvs) = True"
| "truthy (Arr xs) = True"

text \<open>\<^verbatim>\<open>v?.[key]\<close> for the keys the worker reads (tag and attribute names).\<close>

fun get_prop :: "jsval \<Rightarrow> string \<Rightarrow> jsval" where
  "get_prop (Obj kvs) key = (case map_of kvs key of None \<Rightarrow> Undefined | Some v \<Rightarrow> v)"
| "get_prop v key = Undefined"

definition or_js :: "jsval \<Rightarrow> jsval \<Rightarrow> jsval" where
  "or_js a b = (if truthy a then a else b)"

definition and_js :: "jsval \<Rightarrow> jsval \<Rightarrow> jsval" where
  "and_js a b = (if truthy a then b else a)"

text \<open>
  Decimal digits of a natural number, and \<^verbatim>\<open>String(v)\<close>. A number is printed with all
  its digits, as JavaScript does below \<^verbatim>\<open>1e21\<close>; from there on JavaScript prints the
  exponent form, which is not modelled.
\<close>

function show_nat :: "nat \<Rightarrow> string" where
  "show_nat n =
     (if n < 10 then [''0123456789'' ! n]
      else show_nat (n div 10) @ [''0123456789'' ! (n mod 10)])"
  by pat_completeness auto
termination
  by (relation "measure id") auto

declare show_nat.simps [simp del]

definition show_int :: "int \<Rightarrow> string" where
  "show_int i = (if i < 0 then CHR ''-'' # show_nat (nat (- i)) else show_nat (nat i))"

fun to_string :: "jsval \<Rightarrow> string" where
  "to_string Undefined = ''undefined''"
| "to_string (Str s) = s"
| "to_string (Num n) = show_int n"
| "to_string (Obj kvs) = ''[object Object]''"
| "to_string (Arr xs) =
     join_with '','' (map (\<lambda>v. if v = Undefined then [] else to_string v) xs)"

subsection \<open>rss-parser.worker.ts: numbers from text\<close>

definition is_digit :: "char \<Rightarrow> bool" where
  "is_digit c \<longleftrightarrow> 48 \<le> (of_char c :: nat) \<and> (of_char c :: nat) \<le> 57"

definition digits_value :: "string \<Rightarrow> nat" where
  "digits_value ds = foldl (\<lambda>acc c. acc * 10 + ((of_char c :: nat) - 48)) 0 ds"

definition trim_js :: "string \<Rightarrow> string" where
  "trim_js s = rev (dropWhile js_whitespace (rev (dropWhile js_whitespace s)))"

text \<open>
  Digits in the bases of the prefixed literals \<^verbatim>\<open>0x\<close>, \<^verbatim>\<open>0o\<close> and \<^verbatim>\<open>0b\<close>: the value of a
  digit, if the character is one.
\<close>

definition digit_in_base :: "nat \<Rightarrow> char \<Rightarrow> nat option" where
  "digit_in_base b c =
     (let n = (of_char c :: nat);
          v = (if 48 \<le> n \<and> n \<le> 57 then n - 48
               else if 97 \<le> n \<and> n \<le> 102 then n - 87
               else if 65 \<le> n \<and> n \<le> 70 then n - 55
               else b)
      in if v < b then Some v else None)"

definition prefixed_literal :: "nat \<Rightarrow> string \<Rightarrow> jsnum" where
  "prefixed_literal b ds =
     (if ds \<noteq> [] \<and> list_all (\<lambda>c. digit_in_base b c \<noteq> None) ds
      then Fin (of_nat (foldl (\<lambda>acc c. acc * b + (case digit_in_base b c of None \<Rightarrow> 0
                                                  | Some v \<Rightarrow> v)) 0 ds))
      else NaN)"

text \<open>
  An unsigned decimal literal: digits, an optional fraction, an optional exponent;
  with at least one digit before the exponent and nothing after the literal.
\<close>

definition exponent_part :: "string \<Rightarrow> int option" where
  "exponent_part r =
     (if r = [] then Some 0
      else if hd r = CHR ''e'' \<or> hd r = CHR ''E'' then
        (let r1 = tl r;
             negative = (r1 \<noteq> [] \<and> hd r1 = CHR ''-'');
             ds = (if r1 \<noteq> [] \<and> (hd r1 = CHR ''-'' \<or> hd r1 = CHR ''+'') then tl r1 else r1)
         in if ds \<noteq> [] \<and> list_all is_digit ds
            then Some (if negative then - int (digits_value ds) else int (digits_value ds))
            else None)
      else None)"

definition unsigned_decimal :: "string \<Rightarrow> rat option" where
  "unsigned_decimal r =
     (let ip = takeWhile is_digit r;
          r1 = dropWhile is_digit r;
          hasDot = (r1 \<noteq> [] \<and> hd r1 = CHR ''.'');
          fp = (if hasDot then takeWhile is_digit (tl r1) else []);
          r2 = (if hasDot then dropWhile is_digit (tl r1) else r1)
      in if ip = [] \<and> fp = [] then None
         else (case exponent_part r2 of
                 None \<Rightarrow> None
               | Some ex \<Rightarrow>
                   Some ((of_nat (digits_value ip) + of_nat (digits_value fp) / 10 ^ length fp)
                         * (if ex < 0 then 1 / 10 ^ nat (- ex) else 10 ^ nat ex))))"

text \<open>
  \<^verbatim>\<open>Number(s)\<close> for a string. The value of a literal is exact: a literal beyond the
  range of a double is \<^verbatim>\<open>Infinity\<close> in JavaScript and its exact value here.
\<close>

definition Number_js :: "string \<Rightarrow> jsnum" where
  "Number_js s =
     (let t = trim_js s
      in if t = [] then Fin 0
         else if take 2 t = ''0x'' \<or> take 2 t = ''0X'' then prefixed_literal 16 (drop 2 t)
         else if take 2 t = ''0o'' \<or> take 2 t = ''0O'' then prefixed_literal 8 (drop 2 t)
         else if take 2 t = ''0b'' \<or> take 2 t = ''0B'' then prefixed_literal 2 (drop 2 t)
         else
           (let negative = (hd t = CHR ''-'');
                u = (if hd t = CHR ''-'' \<or> hd t = CHR ''+'' then tl t else t)
            in if u = ''Infinity'' then (if negative then NegInf else PosInf)
               else (case unsigned_decimal u of
                       None \<Rightarrow> NaN
                     | Some v \<Rightarrow> Fin (if negative then - v else v))))"

text \<open>
  \<^verbatim>\<open>parseInt(s, 10)\<close>: leading white space, a sign, and the longest run of digits. The
  value is the exact integer; JavaScript rounds it to the nearest double, which is the
  same number up to \<^verbatim>\<open>2^53\<close>.
\<close>

definition parseInt10 :: "string \<Rightarrow> jsnum" where
  "parseInt10 s =
     (let t = dropWhile js_whitespace s;
          negative = (t \<noteq> [] \<and> hd t = CHR ''-'');
          u = (if t \<noteq> [] \<and> (hd t = CHR ''-'' \<or> hd t = CHR ''+'') then tl t else t);
          ds = takeWhile is_digit u
      in if ds = [] then NaN
         else Fin (if negative then - of_nat (digits_value ds) else of_nat (digits_value ds)))"

text \<open>\<^verbatim>\<open>a * b\<close>, \<^verbatim>\<open>a + b\<close> and \<^verbatim>\<open>a || 0\<close> on numbers.\<close>

fun times_js :: "jsnum \<Rightarrow> jsnum \<Rightarrow> jsnum" where
  "times_js (Fin a) (Fin b) = Fin (a * b)"
| "times_js NaN b = NaN"
| "times_js a NaN = NaN"
| "times_js (Fin a) PosInf = (if a = 0 then NaN else if 0 < a then PosInf else NegInf)"
| "times_js (Fin a) NegInf = (if a = 0 then NaN else if 0 < a then NegInf else PosInf)"
| "times_js PosInf (Fin b) = (if b = 0 then NaN else if 0 < b then PosInf else NegInf)"
| "times_js NegInf (Fin b) = (if b = 0 then NaN else if 0 < b then NegInf else PosInf)"
| "times_js PosInf PosInf = PosInf"
| "times_js NegInf NegInf = PosInf"
| "times_js PosInf NegInf = NegInf"
| "times_js NegInf PosInf = NegInf"

fun plus_js :: "jsnum \<Rightarrow> jsnum \<Rightarrow> jsnum" where
  "plus_js (Fin a) (Fin b) = Fin (a + b)"
| "plus_js NaN b = NaN"
| "plus_js a NaN = NaN"
| "plus_js PosInf NegInf = NaN"
| "plus_js NegInf PosInf = NaN"
| "plus_js PosInf b = PosInf"
| "plus_js NegInf b = NegInf"
| "plus_js a PosInf = PosInf"
| "plus_js a NegInf = NegInf"

definition or_zero :: "jsnum \<Rightarrow> jsnum" where
  "or_zero a = (if a = NaN \<or> a = Fin 0 then Fin 0 else a)"

subsection \<open>rss-parser.worker.ts: the episodes of a channel\<close>

text \<open>
  The duration of an item, from the text \<^verbatim>\<open>String(item["itunes:duration"])\<close>: the body of
  \<^verbatim>\<open>if (item["itunes:duration"]) { ... }\<close>.
\<close>

definition parse_duration :: "string \<Rightarrow> jsnum" where
  "parse_duration durationStr =
     (if CHR '':'' \<in> set durationStr then
        (case map Number_js (split_on CHR '':'' durationStr) of
           [h, m, s] \<Rightarrow> plus_js (plus_js (times_js h (Fin 3600)) (times_js m (Fin 60))) s
         | [m, s] \<Rightarrow> plus_js (times_js m (Fin 60)) s
         | _ \<Rightarrow> or_zero (parseInt10 durationStr))
      else or_zero (parseInt10 durationStr))"

definition item_duration :: "jsval \<Rightarrow> jsnum" where
  "item_duration item =
     (if truthy (get_prop item ''itunes:duration'')
      then parse_duration (to_string (get_prop item ''itunes:duration''))
      else Fin 0)"

definition hasAudio :: "jsval \<Rightarrow> jsval" where
  "hasAudio item =
     or_js (get_prop (get_prop item ''enclosure'') ''@_url'')
       (or_js (get_prop (get_prop item ''media:content'') ''@_url'') (get_prop item ''link''))"

definition keep_item :: "jsval \<Rightarrow> bool" where
  "keep_item item \<longleftrightarrow> truthy (and_js (hasAudio item) (get_prop item ''title''))"

definition audioUrl :: "jsval \<Rightarrow> jsval" where
  "audioUrl item =
     or_js (get_prop (get_prop item ''enclosure'') ''@_url'')
       (or_js (get_prop (get_prop item ''media:content'') ''@_url'')
          (or_js (get_prop item ''link'') (Str [])))"

definition item_guid :: "jsval \<Rightarrow> jsval \<Rightarrow> jsval" where
  "item_guid podcastTitle item =
     or_js (get_prop (get_prop item ''guid'') ''#text'')
       (or_js (get_prop item ''guid'')
          (or_js (audioUrl item)
             (or_js (get_prop item ''link'')
                (Str (to_string podcastTitle @ ''-'' @ to_string (get_prop item ''title''))))))"

text \<open>
  The publication date. \<open>toISO\<close> is \<^verbatim>\<open>new Date(v).toISOString()\<close>, with \<open>None\<close> where
  it throws for an invalid date, and \<open>current\<close> is \<^verbatim>\<open>new Date().toISOString()\<close>.
\<close>

definition item_pubDate :: "(jsval \<Rightarrow> string option) \<Rightarrow> string \<Rightarrow> jsval \<Rightarrow> string" where
  "item_pubDate toISO current item =
     (if truthy (get_prop item ''pubDate'') then
        (case toISO (get_prop item ''pubDate'') of None \<Rightarrow> current | Some isoDate \<Rightarrow> isoDate)
      else if truthy (get_prop item ''dc:date'') then
        (case toISO (get_prop item ''dc:date'') of None \<Rightarrow> current | Some isoDate \<Rightarrow> isoDate)
      else current)"

record parsed_episode =
  pe_guid :: jsval
  pe_title :: jsval
  pe_pub_date :: string
  pe_duration :: jsnum
  pe_audio_url :: jsval

definition episode_of ::
  "(jsval \<Rightarrow> string option) \<Rightarrow> string \<Rightarrow> jsval \<Rightarrow> jsval \<Rightarrow> parsed_episode" where
  "episode_of toISO current podcastTitle item =
     \<lparr>pe_guid = item_guid podcastTitle item,
      pe_title = get_prop item ''title'',
      pe_pub_date = item_pubDate toISO current item,
      pe_duration = item_duration item,
      pe_audio_url = audioUrl item\<rparr>"

text \<open>Step 5 of the worker, from \<^verbatim>\<open>channel.item\<close> and the podcast title of step 4.\<close>

definition extract_episodes ::
  "(jsval \<Rightarrow> string option) \<Rightarrow> string \<Rightarrow> jsval \<Rightarrow> jsval \<Rightarrow> parsed_episode list" where
  "extract_episodes toISO current podcastTitle items =
     (if \<not> truthy items then []
      else map (episode_of toISO current podcastTitle)
             (filter keep_item (case items of Arr xs \<Rightarrow> xs | _ \<Rightarrow> [items])))"

text \<open>
  The identifier in the words of the specification: the feed-provided GUID when
  present, otherwise the audio URL, otherwise the link, otherwise a synthesized
  composite. A value can serve as an identifier when it is text: a non-empty string,
  or a number (the parser turns a text of digits into a number). The feed-provided
  GUID is the text of the GUID element: the element's value, or its \<^verbatim>\<open>#text\<close> when the
  element carries attributes; an element without text provides no GUID. The
  specification fixes neither the order nor the separator of the composite, so the
  composite is an argument.
\<close>

fun is_text :: "jsval \<Rightarrow> bool" where
  "is_text (Str s) = (s \<noteq> [])"
| "is_text (Num n) = True"
| "is_text v = False"

definition guid_text :: "jsval \<Rightarrow> jsval" where
  "guid_text item =
     (if is_text (get_prop item ''guid'') then get_prop item ''guid''
      else get_prop (get_prop item ''guid'') ''#text'')"

definition spec_identifier :: "jsval \<Rightarrow> jsval \<Rightarrow> jsval" where
  "spec_identifier composite item =
     (if is_text (guid_text item) then guid_text item
      else if is_text (audioUrl item) then audioUrl item
      else if is_text (get_prop item ''link'') then get_prop item ''link''
      else composite)"

text \<open>
  Two items with an enclosure whose GUID the worker mishandles: a GUID element with an
  attribute and no text, as \<^verbatim>\<open><guid isPermaLink="false"/>\<close> is parsed, and the GUID
  \<^verbatim>\<open><guid>0</guid>\<close>, parsed as the number 0.
\<close>

definition item_attribute_guid :: jsval where
  "item_attribute_guid =
     Obj [(''title'', Str ''Pilot''),
          (''guid'', Obj [(''@_isPermaLink'', Str ''false'')]),
          (''enclosure'', Obj [(''@_url'', Str ''http://cdn/ep1.mp3'')])]"

definition item_zero_guid :: jsval where
  "item_zero_guid =
     Obj [(''title'', Str ''Pilot''),
          (''guid'', Num 0),
          (''enclosure'', Obj [(''@_url'', Str ''http://cdn/ep1.mp3'')])]"

text \<open>Two items of a feed: one with a GUID element, one with an enclosure only.\<close>

definition sample_items :: jsval where
  "sample_items =
     Arr [Obj [(''title'', Str ''Pilot''),
               (''guid'', Obj [(''#text'', Str ''urn:ep:1''), (''@_isPermaLink'', Str ''false'')]),
               (''enclosure'', Obj [(''@_url'', Str ''http://cdn/ep1.mp3'')]),
               (''itunes:duration'', Str ''1:02:03'')],
          Obj [(''title'', Str ''Second''),
               (''enclosure'', Obj [(''@_url'', Str ''http://cdn/ep2.mp3'')]),
               (''itunes:duration'', Num 90)],
          Obj [(''title'', Str ''No audio'')]]"

text \<open>
  For reasoning about \<^verbatim>\<open>path.normalize\<close>: a plain segment is a file or directory name;
  the segments kept by \<open>normalize_step\<close> are, from the last one back, plain segments
  and then, for a relative path only, leading \<^verbatim>\<open>..\<close> segments.
\<close>

definition plain_segment :: "string \<Rightarrow> bool" where
  "plain_segment s \<longleftrightarrow> s \<noteq> [] \<and> CHR ''/'' \<notin> set s \<and> s \<noteq> ''.'' \<and> s \<noteq> ''..''"

definition normal_stack :: "bool \<Rightarrow> string list \<Rightarrow> bool" where
  "normal_stack allowAboveRoot res \<longleftrightarrow>
     list_all (\<lambda>s. s = ''..'') (dropWhile plain_segment res)
     \<and> (allowAboveRoot \<or> dropWhile plain_segment res = [])"

definition kept_segments :: "string \<Rightarrow> string list" where
  "kept_segments p = foldl (normalize_step (hd p \<noteq> CHR ''/'')) [] (split_on CHR ''/'' p)"

text \<open>
  The characters that a path segment must not contain: the control characters below
  32, the separators \<^verbatim>\<open>/\<close> and \<^verbatim>\<open>\\<close>, the dot of \<^verbatim>\<open>.\<close> and \<^verbatim>\<open>..\<close>, and the punctuation
  reserved in file names (\<^verbatim>\<open>< > : " | ? *\<close>).
\<close>

definition reserved_char :: "char \<Rightarrow> bool" where
  "reserved_char c \<longleftrightarrow>
     (of_char c :: nat) < 32
     \<or> c \<in> set [CHR ''/'', CHR 0x5C, CHR ''.'', CHR ''<'', CHR ''>'', CHR '':'', CHR 0x22,
                CHR ''|'', CHR ''?'', CHR ''*'']"

text \<open>
  The same sanitizer on the 16-bit code units of a JavaScript string, where \<^verbatim>\<open>\s\<close> also
  matches the white space beyond 255: \<^verbatim>\<open>U+1680\<close>, \<^verbatim>\<open>U+2000\<close> to \<^verbatim>\<open>U+200A\<close>, \<^verbatim>\<open>U+2028\<close>,
  \<^verbatim>\<open>U+2029\<close>, \<^verbatim>\<open>U+202F\<close>, \<^verbatim>\<open>U+205F\<close>, \<^verbatim>\<open>U+3000\<close> and \<^verbatim>\<open>U+FEFF\<close>. The regular expression has
  no \<^verbatim>\<open>u\<close> flag, so it replaces code unit by code unit.
\<close>

definition unit_whitespace :: "nat \<Rightarrow> bool" where
  "unit_whitespace u \<longleftrightarrow>
     u \<in> {9, 10, 11, 12, 13, 32, 160, 0x1680, 0x2028, 0x2029, 0x202F, 0x205F, 0x3000, 0xFEFF}
     \<or> (0x2000 \<le> u \<and> u \<le> 0x200A)"

definition unit_alnum :: "nat \<Rightarrow> bool" where
  "unit_alnum u \<longleftrightarrow> (97 \<le> u \<and> u \<le> 122) \<or> (65 \<le> u \<and> u \<le> 90) \<or> (48 \<le> u \<and> u \<le> 57)"

definition unit_kept :: "nat \<Rightarrow> bool" where
  "unit_kept u \<longleftrightarrow> unit_alnum u \<or> unit_whitespace u \<or> u = 45 \<or> u = 95"

definition sanitize_units :: "nat list \<Rightarrow> nat list" where
  "sanitize_units us = map (\<lambda>u. if unit_kept u then u else 95) us"

text \<open>The allow-list and the reserved characters of the specification, on code units.\<close>

definition unit_spec_allowed :: "nat \<Rightarrow> bool" where
  "unit_spec_allowed u \<longleftrightarrow> unit_alnum u \<or> u = 32 \<or> u = 45 \<or> u = 95"

definition unit_reserved :: "nat \<Rightarrow> bool" where
  "unit_reserved u \<longleftrightarrow> u < 32 \<or> u \<in> {47, 92, 46, 60, 62, 58, 34, 124, 63, 42}"

section \<open>Properties\<close>

subsection \<open>Generation status\<close>

lemma gen_step_consistent: "gen_consistent g \<Longrightarrow> gen_consistent (gen_step g c)"
  by (cases c) (auto simp: gen_consistent_def startGeneration_def completeGeneration_def)

lemma foldl_gen_step_consistent:
  "gen_consistent g \<Longrightarrow> gen_consistent (foldl gen_step g calls)"
  by (induction calls arbitrary: g) (simp_all add: gen_step_consistent)

lemma gen_run_consistent: "gen_consistent (gen_run calls)"
  unfolding gen_run_def
  by (rule foldl_gen_step_consistent) (simp add: gen_consistent_def initial_gen_state_def)

text \<open>
  C10. After any sequence of \<^verbatim>\<open>startGeneration\<close> and \<^verbatim>\<open>completeGeneration\<close> calls on a
  fresh service, \<^verbatim>\<open>isGenerating = false\<close> implies \<^verbatim>\<open>generatingEpisodeId = null\<close>, so
  \<^verbatim>\<open>getGeneratingStatus\<close> reports no episode id while idle; and a call
  \<^verbatim>\<open>startGeneration(episodeId)\<close> that returns \<^verbatim>\<open>true\<close> in such a state leaves
  \<^verbatim>\<open>isGenerating = true\<close> with exactly that episode id recorded.
\<close>

theorem C10_generation_status_consistent:
  "(\<not> fst (getGeneratingStatus (gen_run calls))
      \<longrightarrow> snd (getGeneratingStatus (gen_run calls)) = None)
   \<and> (fst (startGeneration episodeId (gen_run calls))
      \<longrightarrow> getGeneratingStatus (snd (startGeneration episodeId (gen_run calls)))
            = (True, Some episodeId))"
proof -
  have "gen_consistent (gen_run calls)" by (rule gen_run_consistent)
  then have idle: "\<not> isGenerating (gen_run calls) \<longrightarrow> generatingEpisodeId (gen_run calls) = None"
    by (simp add: gen_consistent_def)
  have started: "fst (startGeneration episodeId (gen_run calls))
      \<longrightarrow> getGeneratingStatus (snd (startGeneration episodeId (gen_run calls)))
            = (True, Some episodeId)"
    by (simp add: startGeneration_def getGeneratingStatus_def)
  from idle started show ?thesis by (simp add: getGeneratingStatus_def)
qed

theorem C10_generation_status_consistent_witness:
  "\<not> fst (getGeneratingStatus (gen_run [Start ''e1'', Complete]))
   \<and> snd (getGeneratingStatus (gen_run [Start ''e1'', Complete])) = None
   \<and> fst (startGeneration ''e2'' (gen_run [Start ''e1'', Complete]))
   \<and> getGeneratingStatus (snd (startGeneration ''e2'' (gen_run [Start ''e1'', Complete])))
       = (True, Some ''e2'')"
  using C10_generation_status_consistent [of "[Start ''e1'', Complete]" "''e2''"]
  by (simp add: gen_run_def initial_gen_state_def startGeneration_def completeGeneration_def
      getGeneratingStatus_def)

subsection \<open>Statements and the transaction\<close>

lemma upsertEpisode_podcasts:
  "upsertEpisode eid pid t pd d u db = Inr db' \<Longrightarrow>
     podcasts db' = podcasts db \<and> documents db' = documents db"
  by (auto simp: upsertEpisode_def split: option.splits if_splits)

lemma upsertEpisode_dom:
  "upsertEpisode eid pid t pd d u db = Inr db' \<Longrightarrow>
     dom (episodes db') = insert eid (dom (episodes db))"
  by (auto simp: upsertEpisode_def split: option.splits if_splits)

lemma upsertEpisode_keeps_download_state:
  assumes "upsertEpisode eid pid t pd d u db = Inr db'" and "episodes db i = Some e0"
  shows "\<exists>e1. episodes db' i = Some e1
           \<and> ep_is_downloaded e1 = ep_is_downloaded e0
           \<and> ep_local_file_path e1 = ep_local_file_path e0"
  using assms by (auto simp: upsertEpisode_def split: option.splits if_splits)

lemma upsertEpisodes_keeps_download_state:
  "episodes db i = Some e0 \<Longrightarrow>
   \<exists>e1. episodes (snd (upsertEpisodes pid eps db)) i = Some e1
           \<and> ep_is_downloaded e1 = ep_is_downloaded e0
           \<and> ep_local_file_path e1 = ep_local_file_path e0"
proof (induction eps arbitrary: db e0)
  case Nil
  then show ?case by simp
next
  case (Cons ep eps)
  show ?case
  proof (cases "upsertEpisode (guid ep) pid (title ep) (pub_date ep) (duration ep)
                  (audio_url ep) db")
    case (Inl err)
    with Cons.prems show ?thesis by simp
  next
    case (Inr db')
    from upsertEpisode_keeps_download_state [OF Inr Cons.prems]
    obtain e1 where e1: "episodes db' i = Some e1"
      "ep_is_downloaded e1 = ep_is_downloaded e0"
      "ep_local_file_path e1 = ep_local_file_path e0"
      by blast
    from Cons.IH [OF e1(1)] e1(2,3) Inr show ?thesis by simp
  qed
qed

lemma upsertEpisodes_podcasts:
  "podcasts (snd (upsertEpisodes pid eps db)) = podcasts db"
  by (induction eps arbitrary: db) (auto split: sum.splits dest: upsertEpisode_podcasts)

lemma upsertEpisodes_stores_all:
  "upsertEpisodes pid eps db = (Inr u, db') \<Longrightarrow>
     dom (episodes db') = guid ` set eps \<union> dom (episodes db)"
proof (induction eps arbitrary: db)
  case Nil
  then show ?case by simp
next
  case (Cons ep eps)
  then obtain db1 where
    s: "upsertEpisode (guid ep) pid (title ep) (pub_date ep) (duration ep) (audio_url ep) db
          = Inr db1"
    and r: "upsertEpisodes pid eps db1 = (Inr u, db')"
    by (auto split: sum.splits)
  from Cons.IH [OF r] upsertEpisode_dom [OF s] show ?case by auto
qed

lemma upsertPodcast_episodes:
  "upsertPodcast pid t f a l c db = Inr db' \<Longrightarrow>
     episodes db' = episodes db \<and> documents db' = documents db"
  by (auto simp: upsertPodcast_def split: if_splits)

lemma find_map_update:
  "find P xs \<noteq> None \<Longrightarrow> (\<And>x. P x \<Longrightarrow> P (f x)) \<Longrightarrow>
   find P (map (\<lambda>x. if P x then f x else x) xs) = map_option f (find P xs)"
  by (induction xs) auto

lemma find_append_new:
  "find P xs = None \<Longrightarrow> P y \<Longrightarrow> find P (xs @ [y]) = Some y"
  by (induction xs) (auto split: if_splits)

lemma upsertPodcast_artwork:
  assumes "upsertPodcast pid t url a l c db = Inr db'"
  shows "\<exists>p. getPodcastByFeedUrl db' url = Some p \<and> pod_artwork_url p = a"
proof (cases "getPodcastByFeedUrl db url")
  case None
  with assms have "podcasts db' = podcasts db @
      [\<lparr>pod_id = pid, pod_title = t, pod_feed_url = url, pod_artwork_url = a,
        pod_custom_prompt = c, pod_last_fetched_at = Some l\<rparr>]"
    by (auto simp: upsertPodcast_def split: if_splits)
  with None show ?thesis
    by (simp add: getPodcastByFeedUrl_def find_append_new)
next
  case (Some p0)
  with assms have "podcasts db' = map (\<lambda>p. if pod_feed_url p = url
                    then p\<lparr>pod_title := t, pod_artwork_url := a,
                           pod_last_fetched_at := Some l\<rparr>
                    else p) (podcasts db)"
    by (auto simp: upsertPodcast_def)
  moreover have "find (\<lambda>p. pod_feed_url p = url) (podcasts db) \<noteq> None"
    using Some by (simp add: getPodcastByFeedUrl_def)
  ultimately show ?thesis
    using find_map_update [of "\<lambda>p. pod_feed_url p = url" "podcasts db"
        "\<lambda>p. p\<lparr>pod_title := t, pod_artwork_url := a, pod_last_fetched_at := Some l\<rparr>"] Some
    by (auto simp: getPodcastByFeedUrl_def)
qed

lemma transaction_result:
  "transaction fn db = (if isl (fst (fn db)) then (fst (fn db), db) else fn db)"
  by (cases "fn db") (auto simp: transaction_def split: sum.splits)

subsection \<open>Feed synchronisation\<close>

lemma js_or_chain: "js_or a (js_or b (js_or c None)) = first_present [a, b, c]"
  by (simp add: js_or_def first_present_def)

lemma syncTransaction_keeps_download_state:
  assumes "episodes db i = Some e0"
  shows "\<exists>e1. episodes (snd (syncTransaction feed newId now url art db)) i = Some e1
           \<and> ep_is_downloaded e1 = ep_is_downloaded e0
           \<and> ep_local_file_path e1 = ep_local_file_path e0"
proof -
  let ?pid = "case getPodcastByFeedUrl db url of None \<Rightarrow> newId
              | Some p \<Rightarrow> if pod_id p \<noteq> [] then pod_id p else newId"
  let ?art = "js_or art (js_or (case getPodcastByFeedUrl db url of None \<Rightarrow> None
                                | Some p \<Rightarrow> pod_artwork_url p)
                 (js_or (fp_artwork_url (feed_podcast feed)) None))"
  let ?cp = "js_or (case getPodcastByFeedUrl db url of None \<Rightarrow> None
                    | Some p \<Rightarrow> pod_custom_prompt p) None"
  show ?thesis
  proof (cases "upsertPodcast ?pid (fp_title (feed_podcast feed)) url ?art now ?cp db")
    case (Inl err)
    with assms show ?thesis by (simp add: syncTransaction_def Let_def)
  next
    case (Inr db1)
    then have "episodes db1 i = Some e0" using assms by (simp add: upsertPodcast_episodes)
    from upsertEpisodes_keeps_download_state [OF this, of ?pid "feed_episodes feed"]
    show ?thesis using Inr
      by (auto simp: syncTransaction_def Let_def split: prod.splits sum.splits)
  qed
qed

lemma syncPodcast_keeps_download_state:
  assumes "episodes db i = Some e0"
  shows "\<exists>e1. episodes (snd (syncPodcast parsed newId now url art db)) i = Some e1
           \<and> ep_is_downloaded e1 = ep_is_downloaded e0
           \<and> ep_local_file_path e1 = ep_local_file_path e0"
proof (cases parsed)
  case (Inl err)
  with assms show ?thesis by (simp add: syncPodcast_def)
next
  case (Inr feed)
  show ?thesis
  proof (cases "isl (fst (syncTransaction feed newId now url art db))")
    case True
    with assms Inr show ?thesis by (simp add: syncPodcast_def transaction_result)
  next
    case False
    with syncTransaction_keeps_download_state [OF assms, of feed newId now url art] Inr
    show ?thesis by (simp add: syncPodcast_def transaction_result)
  qed
qed

lemma syncTransaction_success:
  assumes "syncTransaction feed newId now url art db = (Inr r, db')"
  shows "\<exists>pid db1 u. upsertPodcast pid (fp_title (feed_podcast feed)) url
            (first_present [art,
               case getPodcastByFeedUrl db url of None \<Rightarrow> None | Some p \<Rightarrow> pod_artwork_url p,
               fp_artwork_url (feed_podcast feed)]) now
            (js_or (case getPodcastByFeedUrl db url of None \<Rightarrow> None
                    | Some p \<Rightarrow> pod_custom_prompt p) None) db = Inr db1
          \<and> upsertEpisodes pid (feed_episodes feed) db1 = (Inr u, db')
          \<and> r = (pid, length (feed_episodes feed))"
  using assms unfolding syncTransaction_def Let_def js_or_chain
  by (auto split: sum.splits prod.splits)

lemma syncPodcast_success:
  assumes "fst (syncPodcast parsed newId now url art db) = Inr r"
  shows "\<exists>feed. parsed = Inr feed
           \<and> syncTransaction feed newId now url art db
               = (Inr r, snd (syncPodcast parsed newId now url art db))"
  using assms
  by (cases parsed; cases "syncTransaction (projr parsed) newId now url art db")
     (auto simp: syncPodcast_def transaction_def split: sum.splits)

lemma syncPodcast_success_stores_all:
  assumes "fst (syncPodcast (Inr feed) newId now url art db) = Inr r"
  shows "dom (episodes (snd (syncPodcast (Inr feed) newId now url art db)))
           = guid ` set (feed_episodes feed) \<union> dom (episodes db)"
proof -
  let ?db' = "snd (syncPodcast (Inr feed) newId now url art db)"
  from syncPodcast_success [OF assms]
  have "syncTransaction feed newId now url art db = (Inr r, ?db')" by simp
  from syncTransaction_success [OF this] obtain pid db1 u where
    p: "upsertPodcast pid (fp_title (feed_podcast feed)) url
            (first_present [art,
               case getPodcastByFeedUrl db url of None \<Rightarrow> None | Some p \<Rightarrow> pod_artwork_url p,
               fp_artwork_url (feed_podcast feed)]) now
            (js_or (case getPodcastByFeedUrl db url of None \<Rightarrow> None
                    | Some p \<Rightarrow> pod_custom_prompt p) None) db = Inr db1"
    and e: "upsertEpisodes pid (feed_episodes feed) db1 = (Inr u, ?db')"
    by blast
  from upsertEpisodes_stores_all [OF e] upsertPodcast_episodes [OF p]
  show ?thesis by simp
qed

lemma syncPodcast_artwork:
  assumes "fst (syncPodcast (Inr feed) newId now url art db) = Inr r"
  shows "\<exists>p. getPodcastByFeedUrl (snd (syncPodcast (Inr feed) newId now url art db)) url = Some p
           \<and> pod_artwork_url p =
               first_present [art,
                 case getPodcastByFeedUrl db url of None \<Rightarrow> None | Some p0 \<Rightarrow> pod_artwork_url p0,
                 fp_artwork_url (feed_podcast feed)]"
proof -
  let ?db' = "snd (syncPodcast (Inr feed) newId now url art db)"
  from syncPodcast_success [OF assms]
  have "syncTransaction feed newId now url art db = (Inr r, ?db')" by simp
  from syncTransaction_success [OF this] obtain pid db1 u where
    p: "upsertPodcast pid (fp_title (feed_podcast feed)) url
            (first_present [art,
               case getPodcastByFeedUrl db url of None \<Rightarrow> None | Some p \<Rightarrow> pod_artwork_url p,
               fp_artwork_url (feed_podcast feed)]) now
            (js_or (case getPodcastByFeedUrl db url of None \<Rightarrow> None
                    | Some p \<Rightarrow> pod_custom_prompt p) None) db = Inr db1"
    and e: "upsertEpisodes pid (feed_episodes feed) db1 = (Inr u, ?db')"
    by blast
  from e have "podcasts ?db' = podcasts db1"
    using upsertEpisodes_podcasts [of pid "feed_episodes feed" db1] by simp
  with upsertPodcast_artwork [OF p] show ?thesis
    by (simp add: getPodcastByFeedUrl_def)
qed

text \<open>
  C1. The episode upsert on an id that already has a row replaces \<^verbatim>\<open>title\<close>,
  \<^verbatim>\<open>duration\<close> and \<^verbatim>\<open>audio_url\<close> in that row and nothing else: \<^verbatim>\<open>is_downloaded\<close> and
  \<^verbatim>\<open>local_file_path\<close> (and \<^verbatim>\<open>podcast_id\<close>, \<^verbatim>\<open>pub_date\<close>) stay as they were. On an id
  without a row, whose podcast exists, it inserts the supplied fields, with the
  download columns at their defaults. And whatever a feed sync does, every episode
  that had a row before still has one afterwards, with the same \<^verbatim>\<open>is_downloaded\<close> and
  \<^verbatim>\<open>local_file_path\<close>.
\<close>

theorem C1_upsert_preserves_download_state:
  "(episodes db eid = Some e \<longrightarrow>
      upsertEpisode eid podcast_id t pd d u db =
        Inr (db\<lparr>episodes := (episodes db)(eid \<mapsto>
               e\<lparr>ep_title := t, ep_duration := d, ep_audio_url := u\<rparr>)\<rparr>))
   \<and> (episodes db eid' = None \<and> getPodcastById db podcast_id' \<noteq> None \<longrightarrow>
      upsertEpisode eid' podcast_id' t' pd' d' u' db =
        Inr (db\<lparr>episodes := (episodes db)(eid' \<mapsto>
               \<lparr>ep_podcast_id = podcast_id', ep_title = t', ep_pub_date = pd',
                ep_duration = d', ep_audio_url = u',
                ep_is_downloaded = False, ep_local_file_path = None\<rparr>)\<rparr>))
   \<and> (episodes db i = Some e0 \<longrightarrow>
      (\<exists>e1. episodes (snd (syncPodcast parsed newId now url artworkUrl db)) i = Some e1
           \<and> ep_is_downloaded e1 = ep_is_downloaded e0
           \<and> ep_local_file_path e1 = ep_local_file_path e0))"
proof (intro conjI impI)
  assume "episodes db eid = Some e"
  then show "upsertEpisode eid podcast_id t pd d u db =
        Inr (db\<lparr>episodes := (episodes db)(eid \<mapsto>
               e\<lparr>ep_title := t, ep_duration := d, ep_audio_url := u\<rparr>)\<rparr>)"
    by (simp add: upsertEpisode_def)
next
  assume "episodes db eid' = None \<and> getPodcastById db podcast_id' \<noteq> None"
  then show "upsertEpisode eid' podcast_id' t' pd' d' u' db =
        Inr (db\<lparr>episodes := (episodes db)(eid' \<mapsto>
               \<lparr>ep_podcast_id = podcast_id', ep_title = t', ep_pub_date = pd',
                ep_duration = d', ep_audio_url = u',
                ep_is_downloaded = False, ep_local_file_path = None\<rparr>)\<rparr>)"
    by (simp add: upsertEpisode_def)
next
  assume "episodes db i = Some e0"
  then show "\<exists>e1. episodes (snd (syncPodcast parsed newId now url artworkUrl db)) i = Some e1
           \<and> ep_is_downloaded e1 = ep_is_downloaded e0
           \<and> ep_local_file_path e1 = ep_local_file_path e0"
    by (rule syncPodcast_keeps_download_state)
qed

theorem C1_upsert_preserves_download_state_witness:
  "episodes sample_db ''ep1'' = Some sample_episode
   \<and> upsertEpisode ''ep1'' ''other'' ''Pilot (remastered)'' ''2030'' (Fin 601) ''http://cdn/v2.mp3''
        sample_db =
       Inr (sample_db\<lparr>episodes := (episodes sample_db)(''ep1'' \<mapsto>
              sample_episode\<lparr>ep_title := ''Pilot (remastered)'', ep_duration := Fin 601,
                              ep_audio_url := ''http://cdn/v2.mp3''\<rparr>)\<rparr>)
   \<and> episodes sample_db ''ep2'' = None \<and> getPodcastById sample_db ''p1'' \<noteq> None
   \<and> upsertEpisode ''ep2'' ''p1'' ''Second'' ''2024'' (Fin 1200) ''http://cdn/ep2.mp3'' sample_db =
       Inr (sample_db\<lparr>episodes := (episodes sample_db)(''ep2'' \<mapsto>
              \<lparr>ep_podcast_id = ''p1'', ep_title = ''Second'', ep_pub_date = ''2024'',
               ep_duration = Fin 1200, ep_audio_url = ''http://cdn/ep2.mp3'',
               ep_is_downloaded = False, ep_local_file_path = None\<rparr>)\<rparr>)
   \<and> (\<exists>e1. episodes (snd (syncPodcast (Inr sample_feed) ''p2'' ''2024-03-01'' ''http://feed'' None
                 sample_db)) ''ep1'' = Some e1
          \<and> ep_is_downloaded e1 = True
          \<and> ep_local_file_path e1 = Some ''/home/u/Music/Podcasts/Show/Pilot.mp3'')"
  using C1_upsert_preserves_download_state [of sample_db "''ep1''" sample_episode
      "''other''" "''Pilot (remastered)''" "''2030''" "Fin 601" "''http://cdn/v2.mp3''"
      "''ep2''" "''p1''" "''Second''" "''2024''" "Fin 1200" "''http://cdn/ep2.mp3''"
      "''ep1''" sample_episode "Inr sample_feed" "''p2''" "''2024-03-01''" "''http://feed''" None]
  by (simp add: sample_db_def sample_episode_def getPodcastById_def)

text \<open>
  C5. A feed sync is all-or-nothing. When the fetch and parse fails, the sync fails
  with that error and the database is the one it started from. When the body of the
  transaction fails, at the podcast row or at any episode of the batch, the sync fails
  with that error and the database is again the one it started from, whatever the body
  had written by then. So a failed sync, whatever the cause, changes no row.
\<close>

theorem C5_sync_all_or_nothing:
  "syncPodcast (Inl err) newId now url artworkUrl db = (Inl err, db)
   \<and> (fst (syncTransaction feed newId now url artworkUrl db) = Inl err'
        \<longrightarrow> syncPodcast (Inr feed) newId now url artworkUrl db = (Inl err', db))
   \<and> (fst (syncPodcast parsed newId now url artworkUrl db) = Inl err''
        \<longrightarrow> snd (syncPodcast parsed newId now url artworkUrl db) = db)"
proof (intro conjI impI)
  show "syncPodcast (Inl err) newId now url artworkUrl db = (Inl err, db)"
    by (simp add: syncPodcast_def)
next
  assume "fst (syncTransaction feed newId now url artworkUrl db) = Inl err'"
  then show "syncPodcast (Inr feed) newId now url artworkUrl db = (Inl err', db)"
    by (simp add: syncPodcast_def transaction_result)
next
  assume "fst (syncPodcast parsed newId now url artworkUrl db) = Inl err''"
  then show "snd (syncPodcast parsed newId now url artworkUrl db) = db"
    by (cases parsed) (auto simp: syncPodcast_def transaction_result split: if_splits)
qed

lemma sample_sync_fails_at_second_episode:
  "syncTransaction sample_feed ''p2'' ''2024-03-01'' ''http://feed'' None sample_db_empty_id =
     (Inl (SqliteConstraint ''FOREIGN KEY constraint failed''),
      sample_db_empty_id
        \<lparr>podcasts := [\<lparr>pod_id = [], pod_title = ''Show (new)'', pod_feed_url = ''http://feed'',
                       pod_artwork_url = Some ''http://img/feed.png'', pod_custom_prompt = None,
                       pod_last_fetched_at = Some ''2024-03-01''\<rparr>],
         episodes := [''ep1'' \<mapsto> sample_episode
           \<lparr>ep_podcast_id := [], ep_title := ''Pilot (remastered)'', ep_duration := Fin 601,
            ep_audio_url := ''http://cdn/ep1-v2.mp3''\<rparr>]\<rparr>)"
  by (simp add: syncTransaction_def sample_feed_def sample_db_empty_id_def sample_episode_def
      getPodcastByFeedUrl_def getPodcastById_def upsertPodcast_def upsertEpisode_def
      js_or_def present_def Let_def)

theorem C5_sync_all_or_nothing_witness:
  "fst (syncTransaction sample_feed ''p2'' ''2024-03-01'' ''http://feed'' None sample_db_empty_id)
     = Inl (SqliteConstraint ''FOREIGN KEY constraint failed'')
   \<and> ep_title (the (episodes (snd (syncTransaction sample_feed ''p2'' ''2024-03-01''
         ''http://feed'' None sample_db_empty_id)) ''ep1'')) = ''Pilot (remastered)''
   \<and> syncPodcast (Inr sample_feed) ''p2'' ''2024-03-01'' ''http://feed'' None sample_db_empty_id
     = (Inl (SqliteConstraint ''FOREIGN KEY constraint failed''), sample_db_empty_id)
   \<and> snd (syncPodcast (Inr sample_feed) ''p2'' ''2024-03-01'' ''http://feed'' None
        sample_db_empty_id) = sample_db_empty_id
   \<and> syncPodcast (Inl (External ''Request timeout (> 15 seconds)'')) ''p2'' ''2024-03-01''
        ''http://feed'' None sample_db_empty_id
     = (Inl (External ''Request timeout (> 15 seconds)''), sample_db_empty_id)"
  using C5_sync_all_or_nothing [of "External ''Request timeout (> 15 seconds)''" "''p2''"
      "''2024-03-01''" "''http://feed''" None sample_db_empty_id sample_feed
      "SqliteConstraint ''FOREIGN KEY constraint failed''" "Inr sample_feed"
      "SqliteConstraint ''FOREIGN KEY constraint failed''"]
  by (simp add: sample_sync_fails_at_second_episode sample_episode_def)

text \<open>
  C9. When a sync succeeds, the podcast row stored under the feed URL carries the
  artwork chosen by priority: the explicit override if present, else the artwork the
  row had before the sync if present, else the feed's artwork if present, else
  \<^verbatim>\<open>NULL\<close>. Present means neither \<^verbatim>\<open>null\<close>/\<^verbatim>\<open>undefined\<close> nor the empty string.
\<close>

theorem C9_artwork_priority:
  "fst (syncPodcast (Inr feed) newId now url artworkUrl db) = Inr r \<longrightarrow>
     (\<exists>p. getPodcastByFeedUrl (snd (syncPodcast (Inr feed) newId now url artworkUrl db)) url
            = Some p
         \<and> pod_artwork_url p =
             first_present [artworkUrl,
               case getPodcastByFeedUrl db url of None \<Rightarrow> None | Some p0 \<Rightarrow> pod_artwork_url p0,
               fp_artwork_url (feed_podcast feed)])"
  using syncPodcast_artwork by blast

lemma sample_sync_succeeds:
  "fst (syncPodcast (Inr sample_feed) ''p2'' ''2024-03-01'' ''http://feed'' None sample_db)
     = Inr (''p1'', 2)"
  by (simp add: syncPodcast_def transaction_def syncTransaction_def sample_feed_def
      sample_db_def sample_episode_def getPodcastByFeedUrl_def getPodcastById_def
      upsertPodcast_def upsertEpisode_def js_or_def present_def Let_def)

theorem C9_artwork_priority_witness:
  "fst (syncPodcast (Inr sample_feed) ''p2'' ''2024-03-01'' ''http://feed'' None sample_db)
     = Inr (''p1'', 2)
   \<and> (\<exists>p. getPodcastByFeedUrl
            (snd (syncPodcast (Inr sample_feed) ''p2'' ''2024-03-01'' ''http://feed'' None
               sample_db)) ''http://feed'' = Some p
         \<and> pod_artwork_url p = Some ''http://img/stored.png'')"
  using C9_artwork_priority [of sample_feed "''p2''" "''2024-03-01''" "''http://feed''" None
      sample_db "(''p1'', 2)"]
  by (simp add: sample_sync_succeeds)
     (simp add: sample_db_def sample_feed_def getPodcastByFeedUrl_def first_present_def
        present_def)

subsection \<open>What the steps of the summary workflow leave alone\<close>

lemma downloadStream_gen [simp]: "gen (snd (downloadStream env url dest w)) = gen w"
  by (simp add: downloadStream_def Let_def existsSync_def statSync_def
      split: download_outcome.splits)

lemma downloadStream_store [simp]: "store (snd (downloadStream env url dest w)) = store w"
  by (simp add: downloadStream_def Let_def existsSync_def statSync_def
      split: download_outcome.splits)

lemma downloadStream_remote [simp]: "remote (snd (downloadStream env url dest w)) = remote w"
  by (simp add: downloadStream_def Let_def existsSync_def statSync_def
      split: download_outcome.splits)

lemma downloadToTemp_gen [simp]: "gen (snd (downloadToTemp env eid ep w)) = gen w"
  by (simp add: downloadToTemp_def Let_def split: prod.splits sum.splits)
     (metis downloadStream_gen snd_conv)

lemma downloadToTemp_remote [simp]: "remote (snd (downloadToTemp env eid ep w)) = remote w"
  by (simp add: downloadToTemp_def Let_def split: prod.splits sum.splits)
     (metis downloadStream_remote snd_conv)

lemma provisionAudio_gen [simp]: "gen (snd (provisionAudio env eid w)) = gen w"
  by (simp add: provisionAudio_def split: option.splits)

lemma provisionAudio_remote [simp]: "remote (snd (provisionAudio env eid w)) = remote w"
  by (simp add: provisionAudio_def split: option.splits)

lemma uploadFile_gen [simp]: "gen (snd (uploadFile env p w)) = gen w"
  by (simp add: uploadFile_def Let_def split: sum.splits prod.splits)

lemma uploadFile_fs [simp]: "fs (snd (uploadFile env p w)) = fs w"
  by (simp add: uploadFile_def Let_def split: sum.splits prod.splits)

lemma pollLoop_frame:
  "gen (snd (pollLoop env f m i el w)) = gen w
   \<and> fs (snd (pollLoop env f m i el w)) = fs w
   \<and> remote (snd (pollLoop env f m i el w)) = remote w
   \<and> store (snd (pollLoop env f m i el w)) = store w"
proof (induction env f m i el w rule: pollLoop.induct)
  case (1 env fileName maxWaitMs i elapsed w)
  show ?case
    using "1.IH" by (subst (1 2 3 4) pollLoop.simps) simp
qed

lemma pollUntilActive_frame [simp]:
  "gen (snd (pollUntilActive env f m w)) = gen w"
  "fs (snd (pollUntilActive env f m w)) = fs w"
  "remote (snd (pollUntilActive env f m w)) = remote w"
  "store (snd (pollUntilActive env f m w)) = store w"
  by (simp_all add: pollUntilActive_def pollLoop_frame)

lemma summarize_frame:
  "gen (snd (snd (summarize env eid uri name l w))) = gen w
   \<and> fs (snd (snd (summarize env eid uri name l w))) = fs w
   \<and> remote (snd (snd (summarize env eid uri name l w))) = remote w
   \<and> fst (snd (summarize env eid uri name l w)) = l"
proof -
  obtain r w3 where p: "pollUntilActive env name 60000 w = (r, w3)" by (cases "pollUntilActive env name 60000 w")
  have f: "gen w3 = gen w" "fs w3 = fs w" "remote w3 = remote w"
    using pollUntilActive_frame [of env name 60000 w] by (simp_all add: p)
  show ?thesis
    by (simp add: summarize_def p f generateContent_def split: sum.splits prod.splits)
qed

lemma uploadAndSummarize_frame:
  "gen (snd (snd (uploadAndSummarize env eid audio l w))) = gen w
   \<and> fs (snd (snd (uploadAndSummarize env eid audio l w))) = fs w
   \<and> localAudio (fst (snd (uploadAndSummarize env eid audio l w))) = localAudio l"
proof (cases "statSync w (path audio)")
  case (Inl e)
  then show ?thesis by (simp add: uploadAndSummarize_def)
next
  case (Inr bytes)
  obtain r w2 where u: "uploadFile env (path audio) w = (r, w2)"
    by (cases "uploadFile env (path audio) w")
  have f: "gen w2 = gen w" "fs w2 = fs w"
    using uploadFile_gen [of env "path audio" w] uploadFile_fs [of env "path audio" w]
    by (simp_all add: u)
  show ?thesis
    by (simp add: uploadAndSummarize_def Inr u f summarize_frame split: sum.splits prod.splits)
qed

lemma uploadAndSummarize_records_upload:
  assumes "n \<in> remote (snd (snd (uploadAndSummarize env eid audio l w)))" and "n \<notin> remote w"
  shows "geminiFileName (fst (snd (uploadAndSummarize env eid audio l w))) = Some n"
proof (cases "statSync w (path audio)")
  case (Inl e)
  with assms show ?thesis by (simp add: uploadAndSummarize_def)
next
  case (Inr bytes)
  show ?thesis
  proof (cases "upload_file env (path audio)")
    case (Inl e)
    with assms Inr show ?thesis
      by (simp add: uploadAndSummarize_def uploadFile_def Let_def split: if_splits)
  next
    case up: (Inr un)
    obtain uri name where un: "un = (uri, name)" by (cases un)
    with assms Inr up show ?thesis
      by (simp add: uploadAndSummarize_def uploadFile_def Let_def summarize_frame
          split: if_splits)
  qed
qed

lemma summaryTry_frame:
  "gen (snd (snd (summaryTry env eid w))) = gen w
   \<and> fs (snd (snd (summaryTry env eid w))) = fs (snd (provisionAudio env eid w))
   \<and> localAudio (fst (snd (summaryTry env eid w)))
       = (case fst (provisionAudio env eid w) of Inl e \<Rightarrow> None | Inr audio \<Rightarrow> Some audio)"
proof -
  obtain r w1 where p: "provisionAudio env eid w = (r, w1)"
    by (cases "provisionAudio env eid w")
  have f: "gen w1 = gen w" using provisionAudio_gen [of env eid w] by (simp add: p)
  show ?thesis
    by (simp add: summaryTry_def p f uploadAndSummarize_frame split: sum.splits)
qed

lemma summaryTry_records_upload:
  assumes "n \<in> remote (snd (snd (summaryTry env eid w)))" and "n \<notin> remote w"
  shows "geminiFileName (fst (snd (summaryTry env eid w))) = Some n"
proof -
  obtain r w1 where p: "provisionAudio env eid w = (r, w1)"
    by (cases "provisionAudio env eid w")
  have f: "remote w1 = remote w" using provisionAudio_remote [of env eid w] by (simp add: p)
  show ?thesis
  proof (cases r)
    case (Inl e)
    with assms p f show ?thesis by (simp add: summaryTry_def)
  next
    case (Inr audio)
    with assms p f show ?thesis
      by (simp add: summaryTry_def uploadAndSummarize_records_upload)
  qed
qed

subsection \<open>The cleanup\<close>

lemma seq_completed: "fst (first w) = Inr u \<Longrightarrow> seq first rest w = rest (snd (first w))"
  by (cases "first w") (simp add: seq_def)

lemma try_catch_logged:
  "try_catch body (\<lambda>err. consoleError msg) w =
     (Inr (), if isl (fst (body w))
              then (snd (body w))\<lparr>trace := trace (snd (body w)) @ [ConsoleError msg]\<rparr>
              else snd (body w))"
  by (cases "body w"; cases "fst (body w)") (simp_all add: try_catch_def consoleError_def)

text \<open>The two cleanup statements of the \<^verbatim>\<open>finally\<close> block, each as a change of the world.\<close>

lemma cleanup_remote_completes:
  "fst ((if present (geminiFileName l) then
           try_catch (deleteFile env (case geminiFileName l of None \<Rightarrow> [] | Some name \<Rightarrow> name))
             (\<lambda>err. consoleError ''Failed to delete Gemini file:'')
         else skip) w) = Inr ()"
  by (simp add: try_catch_logged skip_def)

lemma cleanup_local_completes:
  "fst (case localAudio l of
          None \<Rightarrow> skip w
        | Some audio \<Rightarrow>
            if isEphemeral audio \<and> existsSync w (path audio) then
              try_catch (unlinkSync env (path audio))
                (\<lambda>err. consoleError ''Failed to delete temp file:'') w
            else skip w) = Inr ()"
  by (simp add: try_catch_logged skip_def split: option.splits)

lemma summaryFinally_unfold:
  "summaryFinally env l w =
     (case localAudio l of
        None \<Rightarrow> skip
      | Some audio \<Rightarrow>
          (\<lambda>w. if isEphemeral audio \<and> existsSync w (path audio) then
                 try_catch (unlinkSync env (path audio))
                   (\<lambda>err. consoleError ''Failed to delete temp file:'') w
               else skip w))
       (snd ((if present (geminiFileName l) then
                try_catch (deleteFile env (case geminiFileName l of None \<Rightarrow> [] | Some name \<Rightarrow> name))
                  (\<lambda>err. consoleError ''Failed to delete Gemini file:'')
              else skip) (w\<lparr>gen := completeGeneration (gen w)\<rparr>)))"
  unfolding summaryFinally_def
  by (subst seq_completed [where u = "()"], simp)
     (subst seq_completed [where u = "()"], rule cleanup_remote_completes,
      simp split: option.splits)

lemma deleteFile_frame [simp]:
  "gen (snd (deleteFile env name w)) = gen w"
  "fs (snd (deleteFile env name w)) = fs w"
  "store (snd (deleteFile env name w)) = store w"
  by (simp_all add: deleteFile_def Let_def split: option.splits)

lemma unlinkSync_frame [simp]:
  "gen (snd (unlinkSync env p w)) = gen w"
  "remote (snd (unlinkSync env p w)) = remote w"
  "store (snd (unlinkSync env p w)) = store w"
  by (simp_all add: unlinkSync_def Let_def split: option.splits)

lemma unlinkSync_trace:
  "set (trace w) \<subseteq> set (trace (snd (unlinkSync env p w)))"
  by (auto simp: unlinkSync_def Let_def split: option.splits)

lemma summaryFinally_completes: "fst (summaryFinally env l w) = Inr ()"
  by (simp add: summaryFinally_unfold try_catch_logged skip_def split: option.splits)

lemma summaryFinally_gen: "gen (snd (summaryFinally env l w)) = completeGeneration (gen w)"
  by (simp add: summaryFinally_unfold try_catch_logged skip_def split: option.splits)

lemma summaryFinally_store: "store (snd (summaryFinally env l w)) = store w"
  by (simp add: summaryFinally_unfold try_catch_logged skip_def split: option.splits)

lemma cleanup_local_frame:
  "remote (snd ((case localAudio l of
        None \<Rightarrow> skip
      | Some audio \<Rightarrow>
          (\<lambda>w. if isEphemeral audio \<and> existsSync w (path audio) then
                 try_catch (unlinkSync env (path audio))
                   (\<lambda>err. consoleError ''Failed to delete temp file:'') w
               else skip w)) w)) = remote w
   \<and> set (trace w) \<subseteq> set (trace (snd ((case localAudio l of
        None \<Rightarrow> skip
      | Some audio \<Rightarrow>
          (\<lambda>w. if isEphemeral audio \<and> existsSync w (path audio) then
                 try_catch (unlinkSync env (path audio))
                   (\<lambda>err. consoleError ''Failed to delete temp file:'') w
               else skip w)) w)))"
proof (cases "localAudio l")
  case None
  then show ?thesis by (simp add: skip_def)
next
  case (Some audio)
  have "set (trace w) \<subseteq> set (trace (snd (unlinkSync env (path audio) w)))"
    by (rule unlinkSync_trace)
  then show ?thesis
    by (auto simp: Some skip_def try_catch_logged)
qed

lemma cleanup_remote_effect:
  assumes "name \<noteq> []"
  shows "DeleteRemoteFile name
           \<in> set (trace (snd (try_catch (deleteFile env name)
                  (\<lambda>err. consoleError ''Failed to delete Gemini file:'') w)))
         \<and> (delete_file env name = None \<longrightarrow>
              name \<notin> remote (snd (try_catch (deleteFile env name)
                  (\<lambda>err. consoleError ''Failed to delete Gemini file:'') w)))
         \<and> (delete_file env name \<noteq> None \<longrightarrow>
              ConsoleError ''Failed to delete Gemini file:''
                \<in> set (trace (snd (try_catch (deleteFile env name)
                  (\<lambda>err. consoleError ''Failed to delete Gemini file:'') w))))"
proof (cases "delete_file env name")
  case None
  then show ?thesis by (simp add: try_catch_logged deleteFile_def Let_def)
next
  case (Some e)
  then show ?thesis by (simp add: try_catch_logged deleteFile_def Let_def)
qed

lemma summaryFinally_remote_file:
  assumes "geminiFileName l = Some name" and "name \<noteq> []"
  shows "DeleteRemoteFile name \<in> set (trace (snd (summaryFinally env l w)))
         \<and> (delete_file env name = None \<longrightarrow> name \<notin> remote (snd (summaryFinally env l w)))
         \<and> (delete_file env name \<noteq> None \<longrightarrow>
              ConsoleError ''Failed to delete Gemini file:''
                \<in> set (trace (snd (summaryFinally env l w))))"
proof -
  define w1 where "w1 = snd (try_catch (deleteFile env name)
                (\<lambda>err. consoleError ''Failed to delete Gemini file:'')
                (w\<lparr>gen := completeGeneration (gen w)\<rparr>))"
  have p: "present (Some name)" using assms(2) by (simp add: present_def)
  have u: "summaryFinally env l w =
       (case localAudio l of
        None \<Rightarrow> skip
      | Some audio \<Rightarrow>
          (\<lambda>w. if isEphemeral audio \<and> existsSync w (path audio) then
                 try_catch (unlinkSync env (path audio))
                   (\<lambda>err. consoleError ''Failed to delete temp file:'') w
               else skip w)) w1"
    unfolding w1_def by (subst summaryFinally_unfold) (simp only: assms(1) p if_True option.case)
  have w1: "DeleteRemoteFile name \<in> set (trace w1)
            \<and> (delete_file env name = None \<longrightarrow> name \<notin> remote w1)
            \<and> (delete_file env name \<noteq> None \<longrightarrow>
                  ConsoleError ''Failed to delete Gemini file:'' \<in> set (trace w1))"
    unfolding w1_def by (rule cleanup_remote_effect [OF assms(2)])
  have after: "remote (snd (summaryFinally env l w)) = remote w1
               \<and> set (trace w1) \<subseteq> set (trace (snd (summaryFinally env l w)))"
    unfolding u by (rule cleanup_local_frame)
  from w1 after show ?thesis by blast
qed

lemma summaryFinally_local_file:
  assumes "localAudio l = Some audio" and "isEphemeral audio"
  shows "(unlink env (path audio) = None \<longrightarrow> fs (snd (summaryFinally env l w)) (path audio) = None)
         \<and> (unlink env (path audio) \<noteq> None \<and> fs w (path audio) \<noteq> None \<longrightarrow>
              ConsoleError ''Failed to delete temp file:''
                \<in> set (trace (snd (summaryFinally env l w))))"
proof -
  let ?w1 = "snd ((if present (geminiFileName l) then
                try_catch (deleteFile env (case geminiFileName l of None \<Rightarrow> [] | Some name \<Rightarrow> name))
                  (\<lambda>err. consoleError ''Failed to delete Gemini file:'')
              else skip) (w\<lparr>gen := completeGeneration (gen w)\<rparr>))"
  have f: "fs ?w1 = fs w"
    by (simp add: try_catch_logged skip_def)
  have u: "summaryFinally env l w =
       (if existsSync ?w1 (path audio) then
          try_catch (unlinkSync env (path audio))
            (\<lambda>err. consoleError ''Failed to delete temp file:'') ?w1
        else skip ?w1)"
    by (simp add: summaryFinally_unfold assms)
  show ?thesis
    unfolding u
    by (auto simp: try_catch_logged skip_def existsSync_def f unlinkSync_def Let_def
        split: option.splits)
qed

subsection \<open>generateSummary\<close>


lemma generateSummary_idle:
  assumes "\<not> isGenerating (gen w)"
  shows "generateSummary env eid w =
           (fst (summaryTry env eid (w\<lparr>gen := snd (startGeneration eid (gen w))\<rparr>)),
            snd (summaryFinally env
                   (fst (snd (summaryTry env eid (w\<lparr>gen := snd (startGeneration eid (gen w))\<rparr>))))
                   (snd (snd (summaryTry env eid (w\<lparr>gen := snd (startGeneration eid (gen w))\<rparr>))))))"
proof -
  let ?T = "summaryTry env eid (w\<lparr>gen := snd (startGeneration eid (gen w))\<rparr>)"
  obtain r l w1 where t: "?T = (r, l, w1)" by (cases ?T)
  obtain c w2 where f: "summaryFinally env l w1 = (c, w2)" by (cases "summaryFinally env l w1")
  have "c = Inr ()" using summaryFinally_completes [of env l w1] by (simp add: f)
  with assms t f show ?thesis
    by (simp add: generateSummary_def startGeneration_def try_finally_def)
qed

subsection \<open>Audio provisioning\<close>

lemma downloadStream_finished:
  assumes "http_get env url = Finished n" and "0 < n"
  shows "downloadStream env url dest w =
           (Inr (), w\<lparr>trace := trace w @ [HttpGet url dest], fs := (fs w)(dest \<mapsto> n)\<rparr>)"
  using assms by (simp add: downloadStream_def Let_def existsSync_def statSync_def)

lemma downloadStream_success:
  assumes "fst (downloadStream env url dest w) = Inr u"
  shows "fs (snd (downloadStream env url dest w)) dest \<noteq> None"
  using assms
  by (auto simp: downloadStream_def Let_def existsSync_def statSync_def
      split: download_outcome.splits if_splits)


lemma downloadToTemp_success:
  assumes "fst (downloadToTemp env eid ep w) = Inr audio"
  shows "isEphemeral audio \<and> path audio = path_join [tempDir env, eid @ ''.mp3'']
         \<and> fs (snd (downloadToTemp env eid ep w)) (path audio) \<noteq> None"
proof -
  let ?dest = "path_join [tempDir env, eid @ ''.mp3'']"
  obtain r w' where d: "downloadStream env (ep_audio_url ep) ?dest w = (r, w')"
    by (cases "downloadStream env (ep_audio_url ep) ?dest w")
  show ?thesis
  proof (cases r)
    case (Inl e)
    with assms d show ?thesis by (simp add: downloadToTemp_def Let_def)
  next
    case (Inr u)
    with d have "fs w' ?dest \<noteq> None"
      using downloadStream_success [of env "ep_audio_url ep" ?dest w u] by simp
    with assms d Inr show ?thesis by (auto simp: downloadToTemp_def Let_def)
  qed
qed

lemma provisionAudio_ephemeral_exists:
  assumes "fst (provisionAudio env eid w) = Inr audio" and "isEphemeral audio"
  shows "fs (snd (provisionAudio env eid w)) (path audio) \<noteq> None"
  using assms
  by (auto simp: provisionAudio_def dest: downloadToTemp_success
      split: option.splits if_splits)


lemma downloadToTemp_store [simp]: "store (snd (downloadToTemp env eid ep w)) = store w"
  by (simp add: downloadToTemp_def Let_def split: prod.splits sum.splits)
     (metis downloadStream_store snd_conv)


lemma downloadToTemp_finished:
  assumes "http_get env (ep_audio_url ep) = Finished n" and "0 < n"
  shows "downloadToTemp env eid ep w =
           (Inr \<lparr>path = path_join [tempDir env, eid @ ''.mp3''], isEphemeral = True\<rparr>,
            w\<lparr>trace := trace w @ [HttpGet (ep_audio_url ep) (path_join [tempDir env, eid @ ''.mp3''])],
              fs := (fs w)(path_join [tempDir env, eid @ ''.mp3''] \<mapsto> n)\<rparr>)"
  by (simp add: downloadToTemp_def Let_def downloadStream_finished [OF assms])



lemma sample_temp_path:
  "path_join [''/tmp/myapp-cache'', ''ep1.mp3''] = ''/tmp/myapp-cache/ep1.mp3''"
  by (simp add: path_join_def path_normalize_def normalize_step_def Let_def)


subsection \<open>The summary workflow on the sample machine\<close>

lemma sample_poll:
  "env = sample_env \<or> env = sample_env_stuck \<Longrightarrow>
   pollUntilActive env ''files/abc'' 60000 w =
     (Inr (), w\<lparr>trace := trace w @ [GetFile ''files/abc'', GetFile ''files/abc'']\<rparr>)"
  unfolding pollUntilActive_def
  by (subst pollLoop.simps, auto simp: sample_env_def sample_env_stuck_def)
     (subst pollLoop.simps, simp add: sample_env_def sample_env_stuck_def)+

lemma sample_tempDir': "env = sample_env \<or> env = sample_env_stuck \<Longrightarrow>
    tempDir env = ''/tmp/myapp-cache''"
  by (auto simp: tempDir_def sample_env_def sample_env_stuck_def path_join_def
      path_normalize_def normalize_step_def Let_def)

lemma sample_provision:
  assumes "env = sample_env \<or> env = sample_env_stuck"
  shows "provisionAudio env ''ep1'' (sample_world_streaming\<lparr>gen := g\<rparr>) =
     (Inr \<lparr>path = ''/tmp/myapp-cache/ep1.mp3'', isEphemeral = True\<rparr>,
      sample_world_streaming
        \<lparr>gen := g,
         trace := [HttpGet ''http://cdn/ep1.mp3'' ''/tmp/myapp-cache/ep1.mp3''],
         fs := [''/tmp/myapp-cache/ep1.mp3'' \<mapsto> 5]\<rparr>)"
proof -
  let ?e = "sample_episode\<lparr>ep_is_downloaded := False, ep_local_file_path := None\<rparr>"
  have e: "getEpisodeById (store (sample_world_streaming\<lparr>gen := g\<rparr>)) ''ep1'' = Some ?e"
    by (simp add: getEpisodeById_def sample_world_streaming_def sample_db_def)
  have h: "http_get env (ep_audio_url ?e) = Finished 5" "(0::nat) < 5"
    using assms by (auto simp: sample_env_def sample_env_stuck_def)
  have p: "provisionAudio env ''ep1'' (sample_world_streaming\<lparr>gen := g\<rparr>)
             = downloadToTemp env ''ep1'' ?e (sample_world_streaming\<lparr>gen := g\<rparr>)"
    unfolding provisionAudio_def e by simp
  show ?thesis
    unfolding p downloadToTemp_finished [OF h] sample_tempDir' [OF assms]
    by (simp add: sample_temp_path sample_world_streaming_def sample_world_def
        sample_episode_def)
qed

lemma sample_attempt:
  assumes "env = sample_env \<or> env = sample_env_stuck"
  shows "summaryTry env ''ep1'' (sample_world_streaming\<lparr>gen := g\<rparr>) =
     (Inl (External ''503 Service Unavailable''),
      \<lparr>geminiFileUri = Some ''https://files/abc'', geminiFileName = Some ''files/abc'',
       localAudio = Some \<lparr>path = ''/tmp/myapp-cache/ep1.mp3'', isEphemeral = True\<rparr>\<rparr>,
      sample_world_streaming
        \<lparr>gen := g,
         trace := [HttpGet ''http://cdn/ep1.mp3'' ''/tmp/myapp-cache/ep1.mp3'',
                   UploadFile ''/tmp/myapp-cache/ep1.mp3'',
                   GetFile ''files/abc'', GetFile ''files/abc'',
                   GenerateContent ''Summarize the episode.'' ''https://files/abc''],
         fs := [''/tmp/myapp-cache/ep1.mp3'' \<mapsto> 5],
         remote := {''files/abc''}\<rparr>)"
proof -
  have u: "upload_file env ''/tmp/myapp-cache/ep1.mp3'' = Inr (''https://files/abc'', ''files/abc'')"
    using assms by (auto simp: sample_env_def sample_env_stuck_def)
  have g: "generate_content env ''Summarize the episode.'' ''https://files/abc''
             = Inl (External ''503 Service Unavailable'')"
    "default_prompt env = ''Summarize the episode.''"
    using assms by (auto simp: sample_env_def sample_env_stuck_def)
  have pr: "getPrompt env (store sample_world_streaming) ''ep1'' = Inr ''Summarize the episode.''"
    by (simp add: getPrompt_def getEpisodeById_def getPodcastById_def g
        sample_world_streaming_def sample_world_def sample_db_def sample_episode_def)
  have r: "remote sample_world_streaming = {}"
    by (simp add: sample_world_streaming_def sample_world_def)
  show ?thesis
    unfolding summaryTry_def sample_provision [OF assms]
    by (simp add: uploadAndSummarize_def statSync_def uploadFile_def u Let_def summarize_def
        sample_poll [OF assms] pr generateContent_def g r)
qed
text \<open>
  C3. Once the guard is acquired, the cleanup runs on every exit path of
  \<^verbatim>\<open>generateSummary\<close> and never changes its outcome: the caller gets exactly the result
  or the error of the \<^verbatim>\<open>try\<close> block, whatever the two removals answer, and the status is
  idle. Every remote file the attempt created is the one recorded in
  \<^verbatim>\<open>geminiFileName\<close>. For a recorded, non-empty file name the remote deletion is
  requested; when it succeeds the file is gone from the remote store, when it fails
  the failure is logged. When provisioning returned an ephemeral file and its removal
  succeeds, the file is gone from the disk; when the removal fails, the failure is
  logged.
\<close>

theorem C3_cleanup_guaranteed:
  "\<not> isGenerating (gen w) \<longrightarrow>
     (let started = w\<lparr>gen := snd (startGeneration episodeId (gen w))\<rparr>;
          attempt = summaryTry env episodeId started;
          final = generateSummary env episodeId w
      in fst final = fst attempt
       \<and> gen (snd final) = \<lparr>isGenerating = False, generatingEpisodeId = None\<rparr>
       \<and> (name \<in> remote (snd (snd attempt)) \<and> name \<notin> remote w \<longrightarrow>
            geminiFileName (fst (snd attempt)) = Some name)
       \<and> (geminiFileName (fst (snd attempt)) = Some name \<and> name \<noteq> [] \<longrightarrow>
            DeleteRemoteFile name \<in> set (trace (snd final))
            \<and> (delete_file env name = None \<longrightarrow> name \<notin> remote (snd final))
            \<and> (delete_file env name \<noteq> None \<longrightarrow>
                 ConsoleError ''Failed to delete Gemini file:'' \<in> set (trace (snd final))))
       \<and> (fst (provisionAudio env episodeId started) = Inr audio \<and> isEphemeral audio \<longrightarrow>
            (unlink env (path audio) = None \<longrightarrow> fs (snd final) (path audio) = None)
            \<and> (unlink env (path audio) \<noteq> None \<longrightarrow>
                 ConsoleError ''Failed to delete temp file:'' \<in> set (trace (snd final)))))"
proof
  assume idle: "\<not> isGenerating (gen w)"
  define started where "started = w\<lparr>gen := snd (startGeneration episodeId (gen w))\<rparr>"
  define attempt where "attempt = summaryTry env episodeId started"
  define final where "final = generateSummary env episodeId w"
  have fin: "final = (fst attempt, snd (summaryFinally env (fst (snd attempt)) (snd (snd attempt))))"
    unfolding final_def attempt_def started_def by (rule generateSummary_idle [OF idle])
  have 1: "fst final = fst attempt" by (simp add: fin)
  have 2: "gen (snd final) = \<lparr>isGenerating = False, generatingEpisodeId = None\<rparr>"
    by (simp add: fin summaryFinally_gen completeGeneration_def attempt_def summaryTry_frame
        started_def startGeneration_def idle)
  have 3: "name \<in> remote (snd (snd attempt)) \<and> name \<notin> remote w \<longrightarrow>
            geminiFileName (fst (snd attempt)) = Some name"
    unfolding attempt_def using summaryTry_records_upload [of name env episodeId started]
    by (simp add: started_def)
  have 4: "geminiFileName (fst (snd attempt)) = Some name \<and> name \<noteq> [] \<longrightarrow>
            DeleteRemoteFile name \<in> set (trace (snd final))
            \<and> (delete_file env name = None \<longrightarrow> name \<notin> remote (snd final))
            \<and> (delete_file env name \<noteq> None \<longrightarrow>
                 ConsoleError ''Failed to delete Gemini file:'' \<in> set (trace (snd final)))"
    using summaryFinally_remote_file [of "fst (snd attempt)" name env "snd (snd attempt)"]
    by (simp add: fin)
  have 5: "fst (provisionAudio env episodeId started) = Inr audio \<and> isEphemeral audio \<longrightarrow>
            (unlink env (path audio) = None \<longrightarrow> fs (snd final) (path audio) = None)
            \<and> (unlink env (path audio) \<noteq> None \<longrightarrow>
                 ConsoleError ''Failed to delete temp file:'' \<in> set (trace (snd final)))"
  proof
    assume p: "fst (provisionAudio env episodeId started) = Inr audio \<and> isEphemeral audio"
    then have l: "localAudio (fst (snd attempt)) = Some audio"
      by (simp add: attempt_def summaryTry_frame)
    have "fs (snd (snd attempt)) (path audio) \<noteq> None"
      using provisionAudio_ephemeral_exists [of env episodeId started audio] p
      by (simp add: attempt_def summaryTry_frame)
    with summaryFinally_local_file [of "fst (snd attempt)" audio env "snd (snd attempt)"] l p
    show "(unlink env (path audio) = None \<longrightarrow> fs (snd final) (path audio) = None)
            \<and> (unlink env (path audio) \<noteq> None \<longrightarrow>
                 ConsoleError ''Failed to delete temp file:'' \<in> set (trace (snd final)))"
      by (simp add: fin)
  qed
  from 1 2 3 4 5 show "let started = w\<lparr>gen := snd (startGeneration episodeId (gen w))\<rparr>;
          attempt = summaryTry env episodeId started;
          final = generateSummary env episodeId w
      in fst final = fst attempt
       \<and> gen (snd final) = \<lparr>isGenerating = False, generatingEpisodeId = None\<rparr>
       \<and> (name \<in> remote (snd (snd attempt)) \<and> name \<notin> remote w \<longrightarrow>
            geminiFileName (fst (snd attempt)) = Some name)
       \<and> (geminiFileName (fst (snd attempt)) = Some name \<and> name \<noteq> [] \<longrightarrow>
            DeleteRemoteFile name \<in> set (trace (snd final))
            \<and> (delete_file env name = None \<longrightarrow> name \<notin> remote (snd final))
            \<and> (delete_file env name \<noteq> None \<longrightarrow>
                 ConsoleError ''Failed to delete Gemini file:'' \<in> set (trace (snd final))))
       \<and> (fst (provisionAudio env episodeId started) = Inr audio \<and> isEphemeral audio \<longrightarrow>
            (unlink env (path audio) = None \<longrightarrow> fs (snd final) (path audio) = None)
            \<and> (unlink env (path audio) \<noteq> None \<longrightarrow>
                 ConsoleError ''Failed to delete temp file:'' \<in> set (trace (snd final))))"
    unfolding Let_def started_def [symmetric] attempt_def [symmetric] final_def [symmetric]
    by blast
qed

theorem C3_cleanup_guaranteed_witness:
  "\<not> isGenerating (gen sample_world_streaming)
   \<and> fst (provisionAudio sample_env ''ep1''
        (sample_world_streaming\<lparr>gen := snd (startGeneration ''ep1''
           (gen sample_world_streaming))\<rparr>))
      = Inr \<lparr>path = ''/tmp/myapp-cache/ep1.mp3'', isEphemeral = True\<rparr>
   \<and> ''files/abc'' \<in> remote (snd (snd (summaryTry sample_env ''ep1''
        (sample_world_streaming\<lparr>gen := snd (startGeneration ''ep1''
           (gen sample_world_streaming))\<rparr>))))
   \<and> ''files/abc'' \<notin> remote sample_world_streaming
   \<and> fst (generateSummary sample_env ''ep1'' sample_world_streaming)
      = Inl (External ''503 Service Unavailable'')
   \<and> gen (snd (generateSummary sample_env ''ep1'' sample_world_streaming))
      = \<lparr>isGenerating = False, generatingEpisodeId = None\<rparr>
   \<and> DeleteRemoteFile ''files/abc''
        \<in> set (trace (snd (generateSummary sample_env ''ep1'' sample_world_streaming)))
   \<and> ''files/abc'' \<notin> remote (snd (generateSummary sample_env ''ep1'' sample_world_streaming))
   \<and> fs (snd (generateSummary sample_env ''ep1'' sample_world_streaming))
        ''/tmp/myapp-cache/ep1.mp3'' = None
   \<and> fst (generateSummary sample_env_stuck ''ep1'' sample_world_streaming)
      = Inl (External ''503 Service Unavailable'')
   \<and> ConsoleError ''Failed to delete Gemini file:''
        \<in> set (trace (snd (generateSummary sample_env_stuck ''ep1'' sample_world_streaming)))
   \<and> ConsoleError ''Failed to delete temp file:''
        \<in> set (trace (snd (generateSummary sample_env_stuck ''ep1'' sample_world_streaming)))"
proof -
  have i: "\<not> isGenerating (gen sample_world_streaming)"
    "remote sample_world_streaming = {}"
    "startGeneration ''ep1'' (gen sample_world_streaming)
       = (True, \<lparr>isGenerating = True, generatingEpisodeId = Some ''ep1''\<rparr>)"
    by (simp_all add: sample_world_streaming_def sample_world_def initial_gen_state_def
        startGeneration_def)
  have e: "delete_file sample_env ''files/abc'' = None"
    "unlink sample_env ''/tmp/myapp-cache/ep1.mp3'' = None"
    "delete_file sample_env_stuck ''files/abc'' \<noteq> None"
    "unlink sample_env_stuck ''/tmp/myapp-cache/ep1.mp3'' \<noteq> None"
    by (simp_all add: sample_env_def sample_env_stuck_def)
  show ?thesis
    using C3_cleanup_guaranteed [of sample_world_streaming "''ep1''" sample_env "''files/abc''"
        "\<lparr>path = ''/tmp/myapp-cache/ep1.mp3'', isEphemeral = True\<rparr>"]
      C3_cleanup_guaranteed [of sample_world_streaming "''ep1''" sample_env_stuck "''files/abc''"
        "\<lparr>path = ''/tmp/myapp-cache/ep1.mp3'', isEphemeral = True\<rparr>"]
    by (simp add: Let_def i e sample_attempt sample_provision)
qed

subsection \<open>Invocations that overlap\<close>

lemma cleanupLocal_frame [simp]:
  "fst (cleanupLocal env l w) = Inr ()"
  "gen (snd (cleanupLocal env l w)) = gen w"
  by (simp_all add: cleanupLocal_def try_catch_logged skip_def split: option.splits)

lemma settle_cleanup [simp]:
  "settle completion (cleanupLocal env l w) = (Settled completion, snd (cleanupLocal env l w))"
  by (cases "cleanupLocal env l w") (use cleanupLocal_frame(1) [of env l w] in \<open>simp add: settle_def\<close>)

lemma afterDelete_eq:
  "afterDelete env completion l w =
     (Settled completion,
      snd (cleanupLocal env l
        (snd (try_catch (deleteFile env (case geminiFileName l of None \<Rightarrow> [] | Some name \<Rightarrow> name))
             (\<lambda>err. consoleError ''Failed to delete Gemini file:'') w))))"
  by (simp add: afterDelete_def try_catch_logged)

lemma afterDelete_gen [simp]:
  "gen (snd (afterDelete env completion l w)) = gen w"
  "\<not> in_try (fst (afterDelete env completion l w))"
  by (simp_all add: afterDelete_eq try_catch_logged)

lemma leaveTry_gen [simp]:
  "gen (snd (leaveTry env completion l w)) = \<lparr>isGenerating = False, generatingEpisodeId = None\<rparr>"
  "\<not> in_try (fst (leaveTry env completion l w))"
  by (simp_all add: leaveTry_def Let_def completeGeneration_def)


































subsection \<open>The worker: durations and identifiers\<close>

lemma duration_examples:
  "parse_duration ''1:02:03'' = Fin 3723"
  "parse_duration ''45:10'' = Fin 2710"
  "parse_duration ''90'' = Fin 90"
  "parse_duration ''soon'' = Fin 0"
  "item_duration (Obj [(''title'', Str ''Pilot'')]) = Fin 0"
  "item_duration (Obj [(''itunes:duration'', Num 90)]) = Fin 90"
  by (simp_all add: parse_duration_def Number_js_def trim_js_def js_whitespace_def
      unsigned_decimal_def exponent_part_def is_digit_def digits_value_def Let_def
      parseInt10_def or_zero_def item_duration_def show_int_def show_nat.simps)

text \<open>
  C6. The three examples of the specification parse as it says, and a missing field
  gives 0 (lemma \<open>duration_examples\<close>). But colon-delimited text with two or three
  segments that are not numbers does not give 0: \<^verbatim>\<open>Number\<close> of such a segment is \<^verbatim>\<open>NaN\<close>, the
  sum is \<^verbatim>\<open>NaN\<close>, and the \<^verbatim>\<open>|| 0\<close> of the two \<^verbatim>\<open>parseInt\<close> branches is missing on the two
  colon branches.
\<close>

theorem C6_duration_colon_text_is_NaN:
  "parse_duration ''ab:cd'' = NaN
   \<and> item_duration (Obj [(''itunes:duration'', Str ''ab:cd'')]) = NaN
   \<and> item_duration (Obj [(''itunes:duration'', Str ''1:xx:03'')]) = NaN"
  by (simp add: parse_duration_def Number_js_def trim_js_def js_whitespace_def
      unsigned_decimal_def exponent_part_def is_digit_def digits_value_def Let_def
      item_duration_def)

lemma audioUrl_kept:
  assumes "keep_item item"
  shows "truthy (audioUrl item)" and "audioUrl item = hasAudio item"
  using assms
  by (auto simp: keep_item_def and_js_def audioUrl_def hasAudio_def or_js_def split: if_splits)

lemma item_guid_kept:
  assumes "keep_item item"
  shows "truthy (item_guid podcastTitle item)"
    and "item_guid podcastTitle item
           = or_js (get_prop (get_prop item ''guid'') ''#text'')
               (or_js (get_prop item ''guid'') (audioUrl item))"
  using audioUrl_kept(1) [OF assms]
  by (simp_all add: item_guid_def or_js_def)

text \<open>
  On the items of ordinary feeds the worker's identifier is the one of the
  specification: where the audio reference is text, the GUID the worker picks is text
  when it picks one, and the GUID is not the number 0.
\<close>

lemma item_guid_agrees:
  assumes "keep_item item" and "is_text (audioUrl item)"
    and "truthy (or_js (get_prop (get_prop item ''guid'') ''#text'') (get_prop item ''guid''))
           \<longrightarrow> is_text (or_js (get_prop (get_prop item ''guid'') ''#text'') (get_prop item ''guid''))"
    and "is_text (guid_text item) \<longrightarrow> truthy (guid_text item)"
  shows "item_guid podcastTitle item = spec_identifier composite item"
proof (cases "get_prop item ''guid''")
  case Undefined
  with assms show ?thesis
    by (simp add: item_guid_kept(2) spec_identifier_def guid_text_def or_js_def)
next
  case (Str s)
  with assms show ?thesis
    by (simp add: item_guid_kept(2) spec_identifier_def guid_text_def or_js_def)
next
  case (Num n)
  with assms show ?thesis
    by (simp add: item_guid_kept(2) spec_identifier_def guid_text_def or_js_def)
next
  case (Obj kvs)
  with assms show ?thesis
    by (cases "case map_of kvs ''#text'' of None \<Rightarrow> Undefined | Some v \<Rightarrow> v")
       (auto simp add: item_guid_kept(2) spec_identifier_def guid_text_def or_js_def
          split: if_splits)
next
  case (Arr xs)
  with assms show ?thesis
    by (simp add: or_js_def)
qed

lemma sample_items_identifiers:
  "map pe_guid (extract_episodes (\<lambda>v. None) ''2024-03-01'' (Str ''Show'') sample_items)
     = [Str ''urn:ep:1'', Str ''http://cdn/ep2.mp3'']"
  by (simp add: extract_episodes_def sample_items_def keep_item_def and_js_def
      hasAudio_def episode_of_def item_guid_def or_js_def audioUrl_def)

text \<open>
  C8. The claim fails on the code. For a kept item whose GUID element has an attribute
  and no text, the worker's \<^verbatim>\<open>item.guid?.["#text"] || item.guid\<close> takes the attribute
  object itself as the identifier: it is not text, and it is not the audio URL that
  the chain of the specification gives when the feed provides no GUID. And a GUID
  whose text is \<^verbatim>\<open>0\<close> is passed over for the audio URL although the feed provides it.
\<close>

theorem C8_identifier_not_the_chain:
  "keep_item item_attribute_guid
   \<and> pe_guid (episode_of (\<lambda>v. None) ''2024-03-01'' (Str ''Show'') item_attribute_guid)
       = Obj [(''@_isPermaLink'', Str ''false'')]
   \<and> \<not> is_text (pe_guid (episode_of (\<lambda>v. None) ''2024-03-01'' (Str ''Show'')
                       item_attribute_guid))
   \<and> spec_identifier (Str ''Show-Pilot'') item_attribute_guid = Str ''http://cdn/ep1.mp3''
   \<and> keep_item item_zero_guid
   \<and> pe_guid (episode_of (\<lambda>v. None) ''2024-03-01'' (Str ''Show'') item_zero_guid)
       = Str ''http://cdn/ep1.mp3''
   \<and> spec_identifier (Str ''Show-Pilot'') item_zero_guid = Num 0"
  by (simp add: item_attribute_guid_def item_zero_guid_def keep_item_def and_js_def
      hasAudio_def episode_of_def item_guid_def or_js_def audioUrl_def spec_identifier_def
      guid_text_def)

subsection \<open>Splitting, joining and normalizing paths\<close>

lemma split_on_not_Nil [simp]: "split_on c s \<noteq> []"
  by (induction s) (auto split: list.splits)

lemma split_on_no_separator: "x \<in> set (split_on c s) \<Longrightarrow> c \<notin> set x"
  by (induction s arbitrary: x) (auto split: if_splits list.splits)

lemma split_on_append: "split_on c (a @ c # b) = split_on c a @ split_on c b"
proof (induction a)
  case Nil
  show ?case by simp
next
  case (Cons x a)
  obtain y ys where s: "split_on c a = y # ys"
    by (cases "split_on c a") simp_all
  with Cons show ?case by simp
qed

lemma split_on_whole: "c \<notin> set s \<Longrightarrow> split_on c s = [s]"
  by (induction s) auto

lemma split_on_join:
  "segs \<noteq> [] \<Longrightarrow> (\<And>s. s \<in> set segs \<Longrightarrow> c \<notin> set s) \<Longrightarrow>
     split_on c (join_with [c] segs) = segs"
proof (induction "[c]" segs rule: join_with.induct)
  case 1
  then show ?case by simp
next
  case (2 x)
  then show ?case by (simp add: split_on_whole)
next
  case (3 x y ys)
  have "split_on c (x @ c # join_with [c] (y # ys)) = split_on c x @ split_on c (join_with [c] (y # ys))"
    by (rule split_on_append)
  with 3 show ?case by (simp add: split_on_whole)
qed

lemma join_with_snoc:
  "xs \<noteq> [] \<Longrightarrow> join_with sep (xs @ [x]) = join_with sep xs @ sep @ x"
  by (induction sep xs rule: join_with.induct) auto

lemma join_with_not_Nil:
  "xs \<noteq> [] \<Longrightarrow> (\<And>x. x \<in> set xs \<Longrightarrow> x \<noteq> []) \<Longrightarrow> join_with sep xs \<noteq> []"
  by (induction sep xs rule: join_with.induct) auto

lemma hd_join_with:
  "xs \<noteq> [] \<Longrightarrow> (\<And>x. x \<in> set xs \<Longrightarrow> x \<noteq> []) \<Longrightarrow> hd (join_with sep xs) = hd (hd xs)"
  by (induction sep xs rule: join_with.induct) auto

lemma last_join_with:
  "xs \<noteq> [] \<Longrightarrow> (\<And>x. x \<in> set xs \<Longrightarrow> x \<noteq> []) \<Longrightarrow>
     last (join_with sep xs) = last (last xs)"
proof (induction sep xs rule: join_with.induct)
  case (3 sep x y ys)
  have "join_with sep (y # ys) \<noteq> []"
    using 3(3) by (intro join_with_not_Nil) auto
  with 3 show ?case by simp
qed simp_all

lemma normalize_step_plain:
  "plain_segment seg \<Longrightarrow> normalize_step a res seg = seg # res"
  by (simp add: normalize_step_def plain_segment_def)

lemma normal_stack_Nil [simp]: "normal_stack a []"
  by (simp add: normal_stack_def)

lemma normal_stack_tail: "normal_stack a (s # res) \<Longrightarrow> normal_stack a res"
  by (cases res) (auto simp: normal_stack_def plain_segment_def split: if_splits)

lemma normal_stack_element:
  assumes "normal_stack a res" and "s \<in> set res"
  shows "s \<noteq> [] \<and> CHR ''/'' \<notin> set s"
  using assms
proof (induction res)
  case Nil
  then show ?case by simp
next
  case (Cons x res)
  have x: "x \<noteq> [] \<and> CHR ''/'' \<notin> set x"
    using Cons.prems(1) by (auto simp: normal_stack_def plain_segment_def split: if_splits)
  from Cons x normal_stack_tail [OF Cons.prems(1)] show ?case by auto
qed

lemma normalize_step_normal:
  assumes "normal_stack a res" and "CHR ''/'' \<notin> set seg"
  shows "normal_stack a (normalize_step a res seg)"
proof -
  consider "seg = [] \<or> seg = ''.''" | "seg = ''..''" | "plain_segment seg"
    using assms(2) by (auto simp: plain_segment_def)
  then show ?thesis
  proof cases
    case 1
    with assms(1) show ?thesis by (auto simp: normalize_step_def)
  next
    case 2
    show ?thesis
    proof (cases res)
      case Nil
      with 2 show ?thesis by (simp add: normalize_step_def normal_stack_def plain_segment_def)
    next
      case (Cons s rest)
      with 2 assms(1) normal_stack_tail [of a s rest] show ?thesis
        by (auto simp: normalize_step_def normal_stack_def plain_segment_def split: if_splits)
    qed
  next
    case 3
    with assms(1) show ?thesis
      by (simp add: normalize_step_plain normal_stack_def)
  qed
qed

lemma foldl_normalize_step_normal:
  "normal_stack a res \<Longrightarrow> (\<And>s. s \<in> set segs \<Longrightarrow> CHR ''/'' \<notin> set s) \<Longrightarrow>
     normal_stack a (foldl (normalize_step a) res segs)"
  by (induction segs arbitrary: res) (simp_all add: normalize_step_normal)

lemma refold_normal_stack:
  "normal_stack a res \<Longrightarrow> foldl (normalize_step a) [] (rev res) = res"
proof (induction res)
  case Nil
  show ?case by simp
next
  case (Cons s res)
  have ih: "foldl (normalize_step a) [] (rev res) = res"
    using Cons.IH normal_stack_tail [OF Cons.prems] by simp
  have "normalize_step a res s = s # res"
  proof (cases "plain_segment s")
    case True
    then show ?thesis by (rule normalize_step_plain)
  next
    case False
    with Cons.prems have "s = ''..''" and "a" and "list_all (\<lambda>s. s = ''..'') res"
      by (auto simp: normal_stack_def split: if_splits)
    then show ?thesis by (cases res) (auto simp: normalize_step_def)
  qed
  with ih show ?case by simp
qed
lemma ends_not_in:
  "s \<noteq> [] \<Longrightarrow> c \<notin> set s \<Longrightarrow> hd s \<noteq> c \<and> last s \<noteq> c"
  using hd_in_set [of s] last_in_set [of s] by auto

lemma kept_segments_normal: "normal_stack (hd p \<noteq> CHR ''/'') (kept_segments p)"
  unfolding kept_segments_def
  by (rule foldl_normalize_step_normal) (simp_all add: split_on_no_separator)

lemma kept_segments_join_not_Nil:
  "kept_segments p \<noteq> [] \<Longrightarrow> join_with ''/'' (rev (kept_segments p)) \<noteq> []"
  using normal_stack_element [OF kept_segments_normal, of _ p]
  by (intro join_with_not_Nil) auto

lemma path_normalize_simple:
  assumes "p \<noteq> []" and "kept_segments p \<noteq> []" and "last p \<noteq> CHR ''/''"
  shows "path_normalize p
           = (if hd p = CHR ''/'' then ''/'' else []) @ join_with ''/'' (rev (kept_segments p))"
  using assms kept_segments_join_not_Nil [OF assms(2)]
  by (simp add: path_normalize_def Let_def kept_segments_def)

lemma kept_segments_snoc:
  assumes "p \<noteq> []" and "plain_segment seg"
  shows "kept_segments (p @ CHR ''/'' # seg) = seg # kept_segments p"
proof -
  have "split_on CHR ''/'' (p @ CHR ''/'' # seg) = split_on CHR ''/'' p @ [seg]"
    using assms(2) by (simp add: split_on_append split_on_whole plain_segment_def)
  with assms show ?thesis
    by (simp add: kept_segments_def normalize_step_plain)
qed

lemma path_normalize_snoc:
  assumes "p \<noteq> []" and "kept_segments p \<noteq> []" and "last p \<noteq> CHR ''/''"
    and "plain_segment seg"
  shows "path_normalize (p @ CHR ''/'' # seg) = path_normalize p @ CHR ''/'' # seg"
proof -
  have l: "last (p @ CHR ''/'' # seg) \<noteq> CHR ''/''"
    using assms(4) ends_not_in [of seg "CHR ''/''"] by (simp add: plain_segment_def)
  have k: "kept_segments (p @ CHR ''/'' # seg) = seg # kept_segments p"
    by (rule kept_segments_snoc [OF assms(1,4)])
  have "path_normalize (p @ CHR ''/'' # seg)
          = (if hd p = CHR ''/'' then ''/'' else [])
            @ join_with ''/'' (rev (kept_segments p) @ [seg])"
    using path_normalize_simple [of "p @ CHR ''/'' # seg"] l k assms(1) by simp
  also have "\<dots> = ((if hd p = CHR ''/'' then ''/'' else [])
                    @ join_with ''/'' (rev (kept_segments p))) @ CHR ''/'' # seg"
    using assms(2) by (simp add: join_with_snoc)
  finally show ?thesis
    by (simp only: path_normalize_simple [OF assms(1,2,3)])
qed

lemma path_normalize_normalized:
  assumes "p \<noteq> []" and "kept_segments p \<noteq> []" and "last p \<noteq> CHR ''/''"
  shows "path_normalize p \<noteq> []"
    and "last (path_normalize p) \<noteq> CHR ''/''"
    and "kept_segments (path_normalize p) = kept_segments p"
    and "path_normalize (path_normalize p) = path_normalize p"
proof -
  let ?segs = "rev (kept_segments p)"
  let ?q = "path_normalize p"
  have q: "?q = (if hd p = CHR ''/'' then ''/'' else []) @ join_with ''/'' ?segs"
    by (rule path_normalize_simple [OF assms])
  have el: "\<And>s. s \<in> set ?segs \<Longrightarrow> s \<noteq> [] \<and> CHR ''/'' \<notin> set s"
    using normal_stack_element [OF kept_segments_normal, of _ p] by simp
  have ne: "?segs \<noteq> []" using assms(2) by simp
  have j: "join_with ''/'' ?segs \<noteq> []"
    by (rule kept_segments_join_not_Nil [OF assms(2)])
  show 1: "?q \<noteq> []" using j by (simp add: q)
  have "last (join_with ''/'' ?segs) = last (last ?segs)"
    using ne el by (intro last_join_with) auto
  moreover have "last (last ?segs) \<noteq> CHR ''/''"
    using el [of "last ?segs"] ne last_in_set [of ?segs]
      ends_not_in [of "last ?segs" "CHR ''/''"] by blast
  ultimately show 2: "last ?q \<noteq> CHR ''/''" using j by (simp add: q)
  have "hd (join_with ''/'' ?segs) = hd (hd ?segs)"
    using ne el by (intro hd_join_with) auto
  moreover have "hd (hd ?segs) \<noteq> CHR ''/''"
    using el [of "hd ?segs"] ne hd_in_set [of ?segs]
      ends_not_in [of "hd ?segs" "CHR ''/''"] by blast
  ultimately have h: "(hd ?q = CHR ''/'') = (hd p = CHR ''/'')" by (simp add: q)
  have sp: "split_on CHR ''/'' (join_with ''/'' ?segs) = ?segs"
    using ne el by (intro split_on_join) auto
  have "split_on CHR ''/'' ?q = (if hd p = CHR ''/'' then [[]] else []) @ ?segs"
    using sp by (simp add: q)
  then have "kept_segments ?q = foldl (normalize_step (hd p \<noteq> CHR ''/'')) [] ?segs"
    by (simp add: kept_segments_def h normalize_step_def)
  also have "\<dots> = kept_segments p"
    by (rule refold_normal_stack [OF kept_segments_normal])
  finally show 3: "kept_segments ?q = kept_segments p" .
  have "path_normalize ?q
          = (if hd ?q = CHR ''/'' then ''/'' else []) @ join_with ''/'' (rev (kept_segments ?q))"
    using 1 2 3 assms(2) by (intro path_normalize_simple) simp_all
  then show "path_normalize ?q = ?q"
    by (simp add: 3 h) (simp add: q)
qed
subsection \<open>The path of a persistent download\<close>

lemma kept_char_underscore [simp]: "kept_char CHR ''_''"
  by (simp add: kept_char_def)

lemma sanitize_kept: "c \<in> set (sanitize t) \<Longrightarrow> kept_char c"
  by (auto simp: sanitize_def)

lemma sanitize_length: "length (sanitize t) = length t"
  by (simp add: sanitize_def)

lemma sanitize_nth:
  "i < length t \<Longrightarrow> sanitize t ! i = (if kept_char (t ! i) then t ! i else CHR ''_'')"
  by (simp add: sanitize_def)

lemma kept_char_iff: "kept_char c \<longleftrightarrow> spec_allowed c \<or> js_whitespace c"
  by (auto simp: kept_char_def spec_allowed_def js_whitespace_def)

lemma allowed_not_reserved: "spec_allowed c \<Longrightarrow> \<not> reserved_char c"
  by (auto simp: spec_allowed_def reserved_char_def ascii_alnum_def)

lemma sanitize_reserved_only_whitespace:
  "\<not> list_ex (\<lambda>c. reserved_char c \<and> \<not> js_whitespace c) (sanitize t)"
  using sanitize_kept [of _ t] allowed_not_reserved
  by (auto simp: list_ex_iff kept_char_iff)

lemma sanitize_allowed:
  assumes "list_all (\<lambda>c. js_whitespace c \<longrightarrow> c = CHR '' '') t"
  shows "list_all spec_allowed (sanitize t)" and "\<not> list_ex reserved_char (sanitize t)"
proof -
  have "spec_allowed c" if "c \<in> set (sanitize t)" for c
  proof -
    from that obtain d where d: "d \<in> set t" "c = (if kept_char d then d else CHR ''_'')"
      by (auto simp: sanitize_def)
    show ?thesis
    proof (cases "kept_char d")
      case True
      with d assms show ?thesis
        by (auto simp: list_all_iff kept_char_iff spec_allowed_def)
    next
      case False
      with d show ?thesis by (simp add: spec_allowed_def)
    qed
  qed
  then show "list_all spec_allowed (sanitize t)"
    by (simp add: list_all_iff)
  then show "\<not> list_ex reserved_char (sanitize t)"
    using allowed_not_reserved by (auto simp: list_all_iff list_ex_iff)
qed

lemma sanitize_units_nth:
  "k < length us \<Longrightarrow> sanitize_units us ! k = (if unit_kept (us ! k) then us ! k else 95)"
  by (simp add: sanitize_units_def)

lemma unit_kept_iff: "unit_kept u \<longleftrightarrow> unit_spec_allowed u \<or> unit_whitespace u"
  by (auto simp: unit_kept_def unit_spec_allowed_def unit_whitespace_def)

lemma unit_allowed_not_reserved: "unit_spec_allowed u \<Longrightarrow> \<not> unit_reserved u"
  by (auto simp: unit_spec_allowed_def unit_reserved_def unit_alnum_def)

lemma sanitize_units_allowed:
  assumes "list_all (\<lambda>u. unit_whitespace u \<longrightarrow> u = 32) us"
  shows "list_all unit_spec_allowed (sanitize_units us)"
proof -
  have "unit_spec_allowed (if unit_kept u then u else 95)" if "u \<in> set us" for u
    using that assms by (auto simp: list_all_iff unit_kept_iff) (simp_all add: unit_spec_allowed_def)
  then show ?thesis
    unfolding sanitize_units_def list_all_iff by fastforce
qed

text \<open>On code units below 256 the two sanitizers are the same function.\<close>

lemma of_char_eq_numeral:
  "(of_char c :: nat) = 45 \<longleftrightarrow> c = CHR ''-''" "(of_char c :: nat) = 95 \<longleftrightarrow> c = CHR ''_''"
  using of_char_eq_iff [of c "CHR ''-''", where ?'a = nat]
    of_char_eq_iff [of c "CHR ''_''", where ?'a = nat]
  by simp_all

lemma kept_char_unit: "kept_char c \<longleftrightarrow> unit_kept (of_char c)"
proof -
  define n :: nat where "n = of_char c"
  have n: "n < 256"
    by (simp add: n_def)
  have c: "c = CHR ''-'' \<longleftrightarrow> n = 45" "c = CHR ''_'' \<longleftrightarrow> n = 95"
    by (simp_all add: n_def of_char_eq_numeral)
  have "kept_char c \<longleftrightarrow>
          (97 \<le> n \<and> n \<le> 122) \<or> (65 \<le> n \<and> n \<le> 90) \<or> (48 \<le> n \<and> n \<le> 57)
          \<or> n \<in> {9, 10, 11, 12, 13, 32, 160} \<or> n = 45 \<or> n = 95"
    unfolding kept_char_def ascii_alnum_def js_whitespace_def c Let_def n_def [symmetric]
    by blast
  also have "\<dots> \<longleftrightarrow> unit_kept n"
    using n by (auto simp: unit_kept_def unit_alnum_def unit_whitespace_def)
  finally show ?thesis
    by (simp add: n_def)
qed

lemma sanitize_code_units: "map of_char (sanitize s) = sanitize_units (map of_char s)"
  by (simp add: sanitize_def sanitize_units_def kept_char_unit)

lemma sanitize_no_separator:
  "CHR ''/'' \<notin> set (sanitize t)" "CHR ''.'' \<notin> set (sanitize t)"
proof -
  have "\<not> kept_char CHR ''/''" "\<not> kept_char CHR ''.''"
    by (simp_all add: kept_char_def ascii_alnum_def js_whitespace_def)
  then show "CHR ''/'' \<notin> set (sanitize t)" "CHR ''.'' \<notin> set (sanitize t)"
    using sanitize_kept [of _ t] by blast+
qed

lemma sanitize_plain:
  assumes "sanitize t \<noteq> []"
  shows "plain_segment (sanitize t)"
proof -
  have "CHR ''/'' \<notin> set (sanitize t)" "CHR ''.'' \<notin> set (sanitize t)"
    by (rule sanitize_no_separator)+
  with assms show ?thesis by (auto simp: plain_segment_def)
qed

lemma fileName_plain: "plain_segment (sanitize t @ ''.mp3'')"
proof -
  have "CHR ''/'' \<notin> set (sanitize t)"
    by (rule sanitize_no_separator)
  moreover have "sanitize t @ ''.mp3'' \<noteq> ''.''"
    using arg_cong [of "sanitize t @ ''.mp3''" "''.''" length] by auto
  moreover have "sanitize t @ ''.mp3'' \<noteq> ''..''"
    using arg_cong [of "sanitize t @ ''.mp3''" "''..''" length] by auto
  ultimately show ?thesis by (simp add: plain_segment_def)
qed

text \<open>The joined, not yet normalized, media root.\<close>

lemma media_root_joined:
  fixes home :: string
  defines "r \<equiv> join_with ''/'' (filter (\<lambda>a. a \<noteq> []) [home, ''Music'', ''Podcasts''])"
  shows "r \<noteq> []" and "kept_segments r \<noteq> []" and "last r \<noteq> CHR ''/''"
proof -
  let ?r0 = "if home = [] then ''Music'' else home @ ''/Music''"
  have r: "r = ?r0 @ CHR ''/'' # ''Podcasts''" by (simp add: r_def)
  have p: "plain_segment ''Podcasts''" by (simp add: plain_segment_def)
  have "kept_segments r = ''Podcasts'' # kept_segments ?r0"
    unfolding r by (rule kept_segments_snoc [OF _ p]) simp
  then show "kept_segments r \<noteq> []" by simp
  show "r \<noteq> []" by (simp add: r)
  show "last r \<noteq> CHR ''/''" by (simp add: r)
qed

lemma persistentPath_eq:
  "persistentPath env podcastTitle episodeTitle
     = mediaRoot env
       @ (if sanitize podcastTitle = [] then [] else CHR ''/'' # sanitize podcastTitle)
       @ CHR ''/'' # sanitize episodeTitle @ ''.mp3''"
proof -
  let ?sp = "sanitize podcastTitle"
  let ?file = "sanitize episodeTitle @ ''.mp3''"
  let ?r = "join_with ''/'' (filter (\<lambda>a. a \<noteq> []) [homedir env, ''Music'', ''Podcasts''])"
  let ?d = "if ?sp = [] then ?r else ?r @ CHR ''/'' # ?sp"
  note r = media_root_joined [of "homedir env"]
  have root: "mediaRoot env = path_normalize ?r"
    using r(1) by (simp add: mediaRoot_def path_join_def Let_def)
  have "join_with ''/'' (filter (\<lambda>a. a \<noteq> []) [homedir env, ''Music'', ''Podcasts'', ?sp]) = ?d"
    by simp
  moreover have d1: "?d \<noteq> []" using r(1) by simp
  ultimately have dir: "path_join [homedir env, ''Music'', ''Podcasts'', ?sp] = path_normalize ?d"
    by (simp only: path_join_def Let_def if_False)
  have d2: "kept_segments ?d \<noteq> []"
    using r(1,2) by (simp add: kept_segments_snoc sanitize_plain)
  have d3: "last ?d \<noteq> CHR ''/''"
    using r(3) sanitize_plain [of podcastTitle] ends_not_in [of ?sp "CHR ''/''"]
    by (auto simp: plain_segment_def)
  have dir_eq: "path_normalize ?d = mediaRoot env @ (if ?sp = [] then [] else CHR ''/'' # ?sp)"
    using path_normalize_snoc [OF r, of ?sp] by (simp add: root sanitize_plain)
  note n = path_normalize_normalized [OF d1 d2 d3]
  have "join_with ''/'' (filter (\<lambda>a. a \<noteq> []) [path_normalize ?d, ?file])
          = path_normalize ?d @ CHR ''/'' # ?file"
    using n(1) by simp
  then have "path_join [path_normalize ?d, ?file]
          = path_normalize (path_normalize ?d @ CHR ''/'' # ?file)"
    by (simp only: path_join_def Let_def) simp
  also have "\<dots> = path_normalize (path_normalize ?d) @ CHR ''/'' # ?file"
    using n(1,2,3) d2 by (intro path_normalize_snoc fileName_plain) simp_all
  also have "\<dots> = path_normalize ?d @ CHR ''/'' # ?file"
    by (simp only: n(4))
  finally show ?thesis
    by (simp add: persistentPath_def Let_def dir dir_eq)
qed

text \<open>
  The sanitizer keeps every character that \<^verbatim>\<open>\s\<close> matches, also tab, line feed and
  carriage return, which are control characters that a file name must not contain.
\<close>

lemma sanitize_keeps_control_whitespace:
  "sanitize [CHR ''a'', CHR 0x09, CHR 0x0A, CHR 0x0D, CHR ''b'']
     = [CHR ''a'', CHR 0x09, CHR 0x0A, CHR 0x0D, CHR ''b'']"
  "list_all reserved_char [CHR 0x09, CHR 0x0A, CHR 0x0D]"
  "\<not> list_ex spec_allowed [CHR 0x09, CHR 0x0A, CHR 0x0D]"
  by (simp_all add: sanitize_def kept_char_def reserved_char_def spec_allowed_def
      ascii_alnum_def js_whitespace_def)

text \<open>
  C7, as the specification states it, fails: a character outside the allow-list is
  not stripped but replaced by an underscore, so the sanitized segment of
  \<^verbatim>\<open>A/B: Test?\<close> is \<^verbatim>\<open>A_B_ Test_\<close> and not \<^verbatim>\<open>AB Test\<close>.
\<close>

theorem C7_allow_list_counterexample:
  "sanitize ''A/B: Test?'' = ''A_B_ Test_''
   \<and> spec_strip ''A/B: Test?'' = ''AB Test''
   \<and> sanitize ''A/B: Test?'' \<noteq> spec_strip ''A/B: Test?''"
  by (simp add: sanitize_def kept_char_def spec_allowed_def spec_strip_def ascii_alnum_def
      js_whitespace_def)

text \<open>
  C7, amended. The sanitizer works one for one: the sanitized segment has the length
  of the title, a character of the allow-list (alphanumeric, space, hyphen,
  underscore) stays as it is, and a character that is neither in the allow-list nor
  white space becomes an underscore. Nothing is said about white space other than the
  space. So a sanitized segment never contains a reserved character that is not white
  space (no separator, no dot, no colon), and for a title whose only white space is
  the space it consists of allow-list characters and contains no reserved character
  at all. The same holds code unit by code unit for titles with characters beyond
  255. The path of a persistent download is the media root, then the sanitized
  podcast title as a directory (left out when it is empty), then the sanitized episode
  title with \<^verbatim>\<open>.mp3\<close>: the file is always below the media root.
\<close>

theorem C7_sanitized_path:
  "length (sanitize t) = length t
   \<and> (i < length t \<and> spec_allowed (t ! i) \<longrightarrow> sanitize t ! i = t ! i)
   \<and> (j < length t \<and> \<not> spec_allowed (t ! j) \<and> \<not> js_whitespace (t ! j)
        \<longrightarrow> sanitize t ! j = CHR ''_'')
   \<and> \<not> list_ex (\<lambda>c. reserved_char c \<and> \<not> js_whitespace c) (sanitize t)
   \<and> (list_all (\<lambda>c. js_whitespace c \<longrightarrow> c = CHR '' '') t
        \<longrightarrow> list_all spec_allowed (sanitize t) \<and> \<not> list_ex reserved_char (sanitize t))
   \<and> map of_char (sanitize t) = sanitize_units (map of_char t)
   \<and> length (sanitize_units us) = length us
   \<and> (k < length us \<and> unit_spec_allowed (us ! k) \<longrightarrow> sanitize_units us ! k = us ! k)
   \<and> (m < length us \<and> \<not> unit_spec_allowed (us ! m) \<and> \<not> unit_whitespace (us ! m)
        \<longrightarrow> sanitize_units us ! m = 95)
   \<and> (list_all (\<lambda>u. unit_whitespace u \<longrightarrow> u = 32) us
        \<longrightarrow> list_all unit_spec_allowed (sanitize_units us)
            \<and> \<not> list_ex unit_reserved (sanitize_units us))
   \<and> persistentPath env podcastTitle episodeTitle
       = mediaRoot env
         @ (if sanitize podcastTitle = [] then [] else CHR ''/'' # sanitize podcastTitle)
         @ CHR ''/'' # sanitize episodeTitle @ ''.mp3''"
proof (intro conjI impI)
  show "length (sanitize t) = length t"
    by (rule sanitize_length)
  show "sanitize t ! i = t ! i" if "i < length t \<and> spec_allowed (t ! i)"
    using that by (simp add: sanitize_nth kept_char_iff)
  show "sanitize t ! j = CHR ''_''"
    if "j < length t \<and> \<not> spec_allowed (t ! j) \<and> \<not> js_whitespace (t ! j)"
    using that by (simp add: sanitize_nth kept_char_iff)
  show "\<not> list_ex (\<lambda>c. reserved_char c \<and> \<not> js_whitespace c) (sanitize t)"
    by (rule sanitize_reserved_only_whitespace)
  show "list_all spec_allowed (sanitize t)"
    if "list_all (\<lambda>c. js_whitespace c \<longrightarrow> c = CHR '' '') t"
    using that by (rule sanitize_allowed)
  show "\<not> list_ex reserved_char (sanitize t)"
    if "list_all (\<lambda>c. js_whitespace c \<longrightarrow> c = CHR '' '') t"
    using that by (rule sanitize_allowed)
  show "map of_char (sanitize t) = sanitize_units (map of_char t)"
    by (rule sanitize_code_units)
  show "length (sanitize_units us) = length us"
    by (simp add: sanitize_units_def)
  show "sanitize_units us ! k = us ! k" if "k < length us \<and> unit_spec_allowed (us ! k)"
    using that by (simp add: sanitize_units_nth unit_kept_iff)
  show "sanitize_units us ! m = 95"
    if "m < length us \<and> \<not> unit_spec_allowed (us ! m) \<and> \<not> unit_whitespace (us ! m)"
    using that by (simp add: sanitize_units_nth unit_kept_iff)
  show "list_all unit_spec_allowed (sanitize_units us)"
    if "list_all (\<lambda>u. unit_whitespace u \<longrightarrow> u = 32) us"
    using that by (rule sanitize_units_allowed)
  show "\<not> list_ex unit_reserved (sanitize_units us)"
    if "list_all (\<lambda>u. unit_whitespace u \<longrightarrow> u = 32) us"
    using sanitize_units_allowed [OF that] unit_allowed_not_reserved
    by (auto simp: list_all_iff list_ex_iff)
  show "persistentPath env podcastTitle episodeTitle
       = mediaRoot env
         @ (if sanitize podcastTitle = [] then [] else CHR ''/'' # sanitize podcastTitle)
         @ CHR ''/'' # sanitize episodeTitle @ ''.mp3''"
    by (rule persistentPath_eq)
qed

theorem C7_sanitized_path_witness:
  "spec_allowed (''A/B: Test?'' ! 0) \<and> sanitize ''A/B: Test?'' ! 0 = CHR ''A''
   \<and> \<not> spec_allowed (''A/B: Test?'' ! 1) \<and> \<not> js_whitespace (''A/B: Test?'' ! 1)
   \<and> sanitize ''A/B: Test?'' ! 1 = CHR ''_''
   \<and> \<not> list_ex (\<lambda>c. js_whitespace c \<and> c \<noteq> CHR '' '') ''A/B: Test?''
   \<and> list_all spec_allowed (sanitize ''A/B: Test?'')
   \<and> \<not> list_ex reserved_char (sanitize ''A/B: Test?'')
   \<and> unit_spec_allowed ([0x41, 0x4E2D, 0x2F, 0x20] ! 0)
   \<and> sanitize_units [0x41, 0x4E2D, 0x2F, 0x20] ! 0 = 0x41
   \<and> \<not> unit_spec_allowed ([0x41, 0x4E2D, 0x2F, 0x20] ! 1)
   \<and> \<not> unit_whitespace ([0x41, 0x4E2D, 0x2F, 0x20] ! 1)
   \<and> sanitize_units [0x41, 0x4E2D, 0x2F, 0x20] ! 1 = 95
   \<and> \<not> list_ex (\<lambda>u. unit_whitespace u \<and> u \<noteq> 32) [0x41, 0x4E2D, 0x2F, 0x20]
   \<and> list_all unit_spec_allowed (sanitize_units [0x41, 0x4E2D, 0x2F, 0x20])
   \<and> \<not> list_ex unit_reserved (sanitize_units [0x41, 0x4E2D, 0x2F, 0x20])
   \<and> persistentPath sample_env ''A/B: Test?'' ''Ep #1''
       = mediaRoot sample_env
         @ (if sanitize ''A/B: Test?'' = [] then [] else CHR ''/'' # sanitize ''A/B: Test?'')
         @ CHR ''/'' # sanitize ''Ep #1'' @ ''.mp3''"
  using C7_sanitized_path [where t = "''A/B: Test?''" and i = 0 and j = 1
      and us = "[0x41, 0x4E2D, 0x2F, 0x20]" and k = 0 and m = 1
      and env = sample_env and podcastTitle = "''A/B: Test?''" and episodeTitle = "''Ep #1''"]
  by (simp add: spec_allowed_def ascii_alnum_def js_whitespace_def unit_spec_allowed_def
      unit_alnum_def unit_whitespace_def)

lemma sample_persistent_path:
  "persistentPath sample_env ''A/B: Test?'' ''Ep #1''
     = ''/home/u/Music/Podcasts/A_B_ Test_/Ep _1.mp3''"
proof -
  have "mediaRoot sample_env = ''/home/u/Music/Podcasts''"
    by (simp add: mediaRoot_def sample_env_def path_join_def path_normalize_def
        normalize_step_def Let_def)
  then show ?thesis
    by (simp add: persistentPath_eq)
       (simp add: sanitize_def kept_char_def ascii_alnum_def js_whitespace_def)
qed

end
